theory Spec2Isabelle
  imports Complex_Main "HOL-Library.Sublist"
begin

text \<open>
  A shallow embedding of the logic of the restaurant application: the order cart of
  \<^verbatim>\<open>screens/RestaurantDetailScreen.js\<close>, the type registry of
  \<^verbatim>\<open>utils/restaurantTypes.js\<close>, the address formatting of
  \<^verbatim>\<open>screens/AddRestaurantScreen.js\<close> and the form validation of the add and edit
  screens. The definitions come first, the facts and properties after them.
\<close>

section \<open>JavaScript values\<close>

text \<open>
  A JavaScript exception is a value of type \<open>error\<close>; a function that can throw returns
  \<open>error + 'a\<close>.
\<close>

datatype error = TypeError

text \<open>
  Strings are lists of characters; a character stands for a UTF-16 code unit below 256
  (the Latin-1 range, which holds every string literal of the sources). The white space
  of \<^verbatim>\<open>String.prototype.trim\<close> and of the regular expression class \<^verbatim>\<open>\s\<close> in that range:
  tab, line feed, vertical tab, form feed, carriage return, space and no-break space.
\<close>

definition isWhiteSpace :: "char \<Rightarrow> bool" where
  "isWhiteSpace c =
     (c \<in> set [CHR 0x09, CHR 0x0A, CHR 0x0B, CHR 0x0C, CHR 0x0D, CHR '' '', CHR 0xA0])"

text \<open>\<^verbatim>\<open>s.trim()\<close>: white space removed at both ends.\<close>

definition trim :: "string \<Rightarrow> string" where
  "trim s = rev (dropWhile isWhiteSpace (rev (dropWhile isWhiteSpace s)))"

text \<open>
  \<^verbatim>\<open>s.toLowerCase()\<close>: the letters A to Z and the upper-case letters of Latin-1 (code
  units 192 to 222 without the multiplication sign 215) move up by 32.
\<close>

definition toLowerChar :: "char \<Rightarrow> char" where
  "toLowerChar c =
     (let n = (of_char c :: nat)
      in if (65 \<le> n \<and> n \<le> 90) \<or> (192 \<le> n \<and> n \<le> 222 \<and> n \<noteq> 215)
         then char_of (n + 32) else c)"

definition toLowerCase :: "string \<Rightarrow> string" where
  "toLowerCase s = map toLowerChar s"

text \<open>\<^verbatim>\<open>s.includes(t)\<close>: \<open>t\<close> starts at some position of \<open>s\<close>.\<close>

fun str_includes :: "string \<Rightarrow> string \<Rightarrow> bool" where
  "str_includes [] t = (t = [])"
| "str_includes (c # cs) t = (prefix t (c # cs) \<or> str_includes cs t)"

text \<open>\<^verbatim>\<open>parts.join(sep)\<close>\<close>

fun join :: "string \<Rightarrow> string list \<Rightarrow> string" where
  "join sep [] = []"
| "join sep [part] = part"
| "join sep (part # next # parts) = part @ sep @ join sep (next # parts)"

section \<open>Order cart (screens/RestaurantDetailScreen.js)\<close>

text \<open>
  A menu item as the screen reads it. The price and the calories are finite numbers,
  held as the real numbers they stand for (see the numbers below); \<open>calories\<close> is
  optional in the data, so it is an option.
\<close>

record menuItem =
  item_id :: string
  item_name :: string
  price :: real
  calories :: "real option"
  isAvailable :: bool

text \<open>
  A cart line is built by \<^verbatim>\<open>{ ...item, quantity: 1 }\<close>: the fields of the item
  together with a quantity. The cart is the array held by \<^verbatim>\<open>useState([])\<close>.
\<close>

record cartLine =
  line_item :: menuItem
  quantity :: int

type_synonym cart = "cartLine list"

abbreviation line_id :: "cartLine \<Rightarrow> string" where
  "line_id cartItem \<equiv> item_id (line_item cartItem)"

text \<open>
  \<^verbatim>\<open>
  const existingItem = prev.find(cartItem => cartItem.id === item.id);
  if (existingItem) { return prev.map(cartItem => cartItem.id === item.id
        ? { ...cartItem, quantity: cartItem.quantity + 1 } : cartItem); }
  return [...prev, { ...item, quantity: 1 }];
  \<close>
\<close>

definition addToCart :: "menuItem \<Rightarrow> cart \<Rightarrow> cart" where
  "addToCart item prev =
     (case find (\<lambda>cartItem. line_id cartItem = item_id item) prev of
        Some existingItem \<Rightarrow>
          map (\<lambda>cartItem. if line_id cartItem = item_id item
                           then cartItem\<lparr>quantity := quantity cartItem + 1\<rparr>
                           else cartItem) prev
      | None \<Rightarrow> prev @ [\<lparr>line_item = item, quantity = 1\<rparr>])"

text \<open>
  \<^verbatim>\<open>
  const existingItem = prev.find(cartItem => cartItem.id === itemId);
  if (existingItem.quantity === 1) { return prev.filter(cartItem => cartItem.id !== itemId); }
  return prev.map(cartItem => cartItem.id === itemId
        ? { ...cartItem, quantity: cartItem.quantity - 1 } : cartItem);
  \<close>
  When no line has the id, \<^verbatim>\<open>find\<close> returns \<^verbatim>\<open>undefined\<close> and reading
  \<^verbatim>\<open>existingItem.quantity\<close> throws a TypeError: the updater returns no cart.
\<close>

definition removeFromCart :: "string \<Rightarrow> cart \<Rightarrow> error + cart" where
  "removeFromCart itemId prev =
     (case find (\<lambda>cartItem. line_id cartItem = itemId) prev of
        None \<Rightarrow> Inl TypeError
      | Some existingItem \<Rightarrow>
          if quantity existingItem = 1
          then Inr (filter (\<lambda>cartItem. line_id cartItem \<noteq> itemId) prev)
          else Inr (map (\<lambda>cartItem. if line_id cartItem = itemId
                                     then cartItem\<lparr>quantity := quantity cartItem - 1\<rparr>
                                     else cartItem) prev))"

subsection \<open>Numbers\<close>

text \<open>
  A JavaScript number is an IEEE 754 binary64 value: a finite value, an infinity (\<open>True\<close>
  for the positive one) or NaN. A finite value is held as the real number it stands for.
  The sign of a zero is not modelled: the code below compares and adds numbers, and
  \<^verbatim>\<open>-0\<close> and \<^verbatim>\<open>0\<close> compare equal and are both falsy.
\<close>

datatype number = Finite real | Infinite bool | NaN

text \<open>Rounding to the nearest integer, a tie going to the even one.\<close>

definition roundHalfEven :: "real \<Rightarrow> int" where
  "roundHalfEven y =
     (let f = \<lfloor>y\<rfloor>; d = y - of_int f
      in if d < 1 / 2 then f
         else if 1 / 2 < d then f + 1
         else if even f then f else f + 1)"

text \<open>
  The binary64 value of an exact result \<open>x\<close>, rounding to nearest, ties to even. With
  \<^verbatim>\<open>2^e <= |x| < 2^(e+1)\<close> the 53-bit significand gives the spacing \<^verbatim>\<open>2^(e-52)\<close>
  between neighbouring values; below \<^verbatim>\<open>2^(-1022)\<close> (the subnormal range) the spacing
  stays \<^verbatim>\<open>2^(-1074)\<close>; a rounded magnitude of \<^verbatim>\<open>2^1024\<close> or more overflows to the
  infinity of the sign of \<open>x\<close>.
\<close>

definition round64 :: "real \<Rightarrow> number" where
  "round64 x =
     (if x = 0 then Finite 0
      else let e = max \<lfloor>log 2 \<bar>x\<bar>\<rfloor> (- 1022);
               ulp = 2 powi (e - 52);
               r = of_int (roundHalfEven (x / ulp)) * ulp
           in if 2 ^ 1024 \<le> \<bar>r\<bar> then Infinite (0 < x) else Finite r)"

text \<open>\<^verbatim>\<open>a + b\<close> and \<^verbatim>\<open>a * b\<close> on numbers: the exact result, rounded.\<close>

fun add64 :: "number \<Rightarrow> number \<Rightarrow> number" where
  "add64 (Finite a) (Finite b) = round64 (a + b)"
| "add64 NaN b = NaN"
| "add64 a NaN = NaN"
| "add64 (Infinite s) (Infinite t) = (if s = t then Infinite s else NaN)"
| "add64 (Infinite s) (Finite b) = Infinite s"
| "add64 (Finite a) (Infinite t) = Infinite t"

fun mul64 :: "number \<Rightarrow> number \<Rightarrow> number" where
  "mul64 (Finite a) (Finite b) = round64 (a * b)"
| "mul64 NaN b = NaN"
| "mul64 a NaN = NaN"
| "mul64 (Infinite s) (Infinite t) = Infinite (s = t)"
| "mul64 (Infinite s) (Finite b) = (if b = 0 then NaN else Infinite (s = (0 < b)))"
| "mul64 (Finite a) (Infinite t) = (if a = 0 then NaN else Infinite (t = (0 < a)))"

text \<open>\<^verbatim>\<open>n >= 0\<close>\<close>

fun nonNegative :: "number \<Rightarrow> bool" where
  "nonNegative (Finite x) = (0 \<le> x)"
| "nonNegative (Infinite s) = s"
| "nonNegative NaN = False"

subsection \<open>Totals\<close>

text \<open>
  \<^verbatim>\<open>cart.reduce((total, item) => total + (item.price * item.quantity), 0)\<close>. The price
  and the quantity of a line are finite numbers; each product and each sum is rounded.
\<close>

definition getTotalPrice :: "cart \<Rightarrow> number" where
  "getTotalPrice cart =
     foldl (\<lambda>total item.
              add64 total (mul64 (Finite (price (line_item item)))
                                 (Finite (of_int (quantity item)))))
       (Finite 0) cart"

text \<open>
  \<^verbatim>\<open>item.calories || 0\<close>: a missing calorie value and the value 0 both give 0.
\<close>

definition caloriesOrZero :: "menuItem \<Rightarrow> real" where
  "caloriesOrZero item = (case calories item of None \<Rightarrow> 0 | Some c \<Rightarrow> if c = 0 then 0 else c)"

text \<open>\<^verbatim>\<open>cart.reduce((total, item) => total + ((item.calories || 0) * item.quantity), 0)\<close>\<close>

definition getTotalCalories :: "cart \<Rightarrow> number" where
  "getTotalCalories cart =
     foldl (\<lambda>total item.
              add64 total (mul64 (Finite (caloriesOrZero (line_item item)))
                                 (Finite (of_int (quantity item)))))
       (Finite 0) cart"

text \<open>
  A session of the screen: the presses of the add and remove buttons, applied in order to
  the cart state. A remove whose updater throws ends the run with the error.
\<close>

datatype cartOp = AddItem menuItem | RemoveItem string

fun applyOps :: "cartOp list \<Rightarrow> cart \<Rightarrow> error + cart" where
  "applyOps [] cart = Inr cart"
| "applyOps (AddItem item # ops) cart = applyOps ops (addToCart item cart)"
| "applyOps (RemoveItem itemId # ops) cart =
     (case removeFromCart itemId cart of
        Inl e \<Rightarrow> Inl e
      | Inr cart' \<Rightarrow> applyOps ops cart')"

text \<open>The invariant of the cart: one line per item id, every quantity at least 1.\<close>

definition cart_ok :: "cart \<Rightarrow> bool" where
  "cart_ok cart = (distinct (map line_id cart) \<and> list_all (\<lambda>l. 1 \<le> quantity l) cart)"

section \<open>Restaurant type registry (utils/restaurantTypes.js)\<close>

record restaurantType =
  type_name :: string
  type_color :: string
  type_description :: string

text \<open>The table \<^verbatim>\<open>RESTAURANT_TYPES\<close>, in its declared order.\<close>

definition RESTAURANT_TYPES :: "restaurantType list" where
  "RESTAURANT_TYPES =
    [\<lparr>type_name = ''Go Green'', type_color = ''#4CAF50'',
        type_description = ''Eco-friendly and sustainable dining''\<rparr>,
     \<lparr>type_name = ''Fine Dining'', type_color = ''#8E24AA'',
        type_description = ''Upscale restaurants with premium service''\<rparr>,
     \<lparr>type_name = ''Casual Dining'', type_color = ''#FF7043'',
        type_description = ''Relaxed atmosphere with table service''\<rparr>,
     \<lparr>type_name = ''Cafe'', type_color = ''#795548'',
        type_description = ''Coffee shops and light meals''\<rparr>,
     \<lparr>type_name = ''Fast Food'', type_color = ''#F44336'',
        type_description = ''Quick service restaurants''\<rparr>,
     \<lparr>type_name = ''Buffet'', type_color = ''#FF9800'',
        type_description = ''Self-service dining with variety''\<rparr>,
     \<lparr>type_name = ''Food Truck'', type_color = ''#2196F3'',
        type_description = ''Mobile food vendors''\<rparr>,
     \<lparr>type_name = ''Bakery'', type_color = ''#FFEB3B'',
        type_description = ''Fresh baked goods and pastries''\<rparr>,
     \<lparr>type_name = ''Dessert Shop'', type_color = ''#E91E63'',
        type_description = ''Sweets, ice cream, and desserts''\<rparr>,
     \<lparr>type_name = ''Bar'', type_color = ''#9C27B0'',
        type_description = ''Drinks and bar food''\<rparr>,
     \<lparr>type_name = ''Pub'', type_color = ''#607D8B'',
        type_description = ''Casual drinking establishment with food''\<rparr>]"

text \<open>
  \<^verbatim>\<open>
  if (!query || query.trim() === '') { return RESTAURANT_TYPES; }
  const searchTerm = query.toLowerCase().trim();
  return RESTAURANT_TYPES.filter(type =>
    type.name.toLowerCase().includes(searchTerm) ||
    type.description.toLowerCase().includes(searchTerm));
  \<close>
\<close>

definition searchRestaurantTypes :: "string \<Rightarrow> restaurantType list" where
  "searchRestaurantTypes query =
     (if query = [] \<or> trim query = [] then RESTAURANT_TYPES
      else let searchTerm = trim (toLowerCase query)
           in filter (\<lambda>type. str_includes (toLowerCase (type_name type)) searchTerm \<or>
                             str_includes (toLowerCase (type_description type)) searchTerm)
                RESTAURANT_TYPES)"

text \<open>
  A restaurant as the grouping reads it: its \<^verbatim>\<open>type\<close> may be missing
  (\<^verbatim>\<open>undefined\<close> or \<^verbatim>\<open>null\<close>), which is \<open>None\<close>.
\<close>

record restaurant =
  r_id :: string
  r_name :: string
  r_type :: "string option"

text \<open>\<^verbatim>\<open>restaurant.type || 'Other'\<close>: a missing type and the empty string are falsy.\<close>

definition typeOrOther :: "restaurant \<Rightarrow> string" where
  "typeOrOther restaurant =
     (case r_type restaurant of
        None \<Rightarrow> ''Other''
      | Some t \<Rightarrow> if t = [] then ''Other'' else t)"

text \<open>
  The accumulator of the reduction is the object literal \<^verbatim>\<open>{}\<close>. Its own properties are
  the buckets, a map from key to array. Reading \<^verbatim>\<open>acc[type]\<close> for a key that is not an
  own property goes to \<^verbatim>\<open>Object.prototype\<close>, whose properties are these:
\<close>

definition objectPrototypeKeys :: "string list" where
  "objectPrototypeKeys =
     [''constructor'', ''__defineGetter__'', ''__defineSetter__'', ''hasOwnProperty'',
      ''__lookupGetter__'', ''__lookupSetter__'', ''isPrototypeOf'', ''propertyIsEnumerable'',
      ''toString'', ''valueOf'', ''__proto__'', ''toLocaleString'']"

type_synonym groups = "string \<rightharpoonup> restaurant list"

text \<open>
  One step of the reduction:
  \<^verbatim>\<open>
  const type = restaurant.type || 'Other';
  if (!acc[type]) { acc[type] = []; }
  acc[type].push(restaurant);
  return acc;
  \<close>
  For a key inherited from \<^verbatim>\<open>Object.prototype\<close> the value read is a function or an
  object, so no bucket is created and \<^verbatim>\<open>acc[type].push\<close> is not a function: a TypeError.
\<close>

definition groupStep :: "groups \<Rightarrow> restaurant \<Rightarrow> error + groups" where
  "groupStep acc restaurant =
     (let type = typeOrOther restaurant
      in case acc type of
           Some bucket \<Rightarrow> Inr (acc(type \<mapsto> bucket @ [restaurant]))
         | None \<Rightarrow>
             if type \<in> set objectPrototypeKeys then Inl TypeError
             else Inr (acc(type \<mapsto> [] @ [restaurant])))"

text \<open>\<^verbatim>\<open>restaurants.reduce((acc, restaurant) => ..., {})\<close>\<close>

fun reduceGroups :: "groups \<Rightarrow> restaurant list \<Rightarrow> error + groups" where
  "reduceGroups acc [] = Inr acc"
| "reduceGroups acc (restaurant # rest) =
     (case groupStep acc restaurant of
        Inl e \<Rightarrow> Inl e
      | Inr acc' \<Rightarrow> reduceGroups acc' rest)"

definition groupRestaurantsByType :: "restaurant list \<Rightarrow> error + groups" where
  "groupRestaurantsByType restaurants = reduceGroups Map.empty restaurants"

section \<open>Address formatting (screens/AddRestaurantScreen.js)\<close>

text \<open>
  The object a reverse geocoding result holds; every field may be missing (\<open>None\<close>).
\<close>

record geocode =
  name :: "string option"
  streetNumber :: "string option"
  street :: "string option"
  subregion :: "string option"
  city :: "string option"
  region :: "string option"
  country :: "string option"
  formattedAddress :: "string option"
  district :: "string option"

text \<open>The empty object \<^verbatim>\<open>{}\<close>.\<close>

definition noFields :: geocode where
  "noFields = \<lparr>name = None, streetNumber = None, street = None, subregion = None, city = None,
     region = None, country = None, formattedAddress = None, district = None\<rparr>"

text \<open>
  A field used as a condition is truthy when it is present and not the empty string;
  \<open>str\<close> reads the string of a field. The comparisons \<^verbatim>\<open>a !== b\<close> of two fields are
  inequalities of options (the left one is always a truthy string where they are evaluated).
\<close>

definition truthy :: "string option \<Rightarrow> bool" where
  "truthy v = (case v of None \<Rightarrow> False | Some s \<Rightarrow> s \<noteq> [])"

definition str :: "string option \<Rightarrow> string" where
  "str v = (case v of None \<Rightarrow> [] | Some s \<Rightarrow> s)"

text \<open>
  The seven steps push onto \<^verbatim>\<open>addressParts\<close> in order; each is modelled by the list of
  what it pushes.
  \<^verbatim>\<open>
  if (name && !name.includes('+') && name !== city && name !== subregion) {
    addressParts.push(name); }
  \<close>
\<close>

definition step1_name :: "geocode \<Rightarrow> string list" where
  "step1_name a =
     (if truthy (name a) \<and> \<not> str_includes (str (name a)) ''+'' \<and>
         name a \<noteq> city a \<and> name a \<noteq> subregion a
      then [str (name a)] else [])"

text \<open>
  \<^verbatim>\<open>
  if (streetNumber && street) { addressParts.push(`${streetNumber} ${street}`); }
  else if (street && street !== name) { addressParts.push(street); }
  \<close>
\<close>

definition step2_street :: "geocode \<Rightarrow> string list" where
  "step2_street a =
     (if truthy (streetNumber a) \<and> truthy (street a)
      then [str (streetNumber a) @ '' '' @ str (street a)]
      else if truthy (street a) \<and> street a \<noteq> name a then [str (street a)] else [])"

text \<open>\<^verbatim>\<open>if (subregion && subregion !== city && subregion !== region) ...\<close>\<close>

definition step3_subregion :: "geocode \<Rightarrow> string list" where
  "step3_subregion a =
     (if truthy (subregion a) \<and> subregion a \<noteq> city a \<and> subregion a \<noteq> region a
      then [str (subregion a)] else [])"

text \<open>\<^verbatim>\<open>if (district && district !== city && district !== subregion) ...\<close>\<close>

definition step4_district :: "geocode \<Rightarrow> string list" where
  "step4_district a =
     (if truthy (district a) \<and> district a \<noteq> city a \<and> district a \<noteq> subregion a
      then [str (district a)] else [])"

text \<open>\<^verbatim>\<open>if (city) ...\<close>\<close>

definition step5_city :: "geocode \<Rightarrow> string list" where
  "step5_city a = (if truthy (city a) then [str (city a)] else [])"

text \<open>\<^verbatim>\<open>if (region && region !== city && region !== district) ...\<close>\<close>

definition step6_region :: "geocode \<Rightarrow> string list" where
  "step6_region a =
     (if truthy (region a) \<and> region a \<noteq> city a \<and> region a \<noteq> district a
      then [str (region a)] else [])"

text \<open>\<^verbatim>\<open>if (country) ...\<close>\<close>

definition step7_country :: "geocode \<Rightarrow> string list" where
  "step7_country a = (if truthy (country a) then [str (country a)] else [])"

definition addressParts :: "geocode \<Rightarrow> string list" where
  "addressParts a =
     step1_name a @ step2_street a @ step3_subregion a @ step4_district a @
     step5_city a @ step6_region a @ step7_country a"

subsection \<open>The regular expressions\<close>

text \<open>The class \<^verbatim>\<open>[A-Z0-9]\<close>.\<close>

definition isPlusCodeChar :: "char \<Rightarrow> bool" where
  "isPlusCodeChar c = (c \<in> set ''ABCDEFGHIJKLMNOPQRSTUVWXYZ0123456789'')"

text \<open>
  The tail \<^verbatim>\<open>\s*,?\s*\<close> of the plus code pattern, all three greedy: white space, one
  comma if there is one, white space. It returns what is left of the string.
\<close>

definition skipSeparator :: "string \<Rightarrow> string" where
  "skipSeparator s =
     (let afterSpace = dropWhile isWhiteSpace s;
          afterComma = (case afterSpace of
                          [] \<Rightarrow> afterSpace
                        | c # cs \<Rightarrow> if c = CHR '','' then cs else afterSpace)
      in dropWhile isWhiteSpace afterComma)"

text \<open>
  A match of \<^verbatim>\<open>/[A-Z0-9]{4}\+[A-Z0-9]{2,}\s*,?\s*/\<close> at the start of the string: four
  characters of the class, a plus sign, two or more characters of the class (as many as
  there are; what follows can match the empty string, so the greedy choice stands), and
  the separator. The result is the rest of the string after the match.
\<close>

fun matchPlusCode :: "string \<Rightarrow> string option" where
  "matchPlusCode (c1 # c2 # c3 # c4 # p # d1 # d2 # rest) =
     (if isPlusCodeChar c1 \<and> isPlusCodeChar c2 \<and> isPlusCodeChar c3 \<and> isPlusCodeChar c4 \<and>
         p = CHR ''+'' \<and> isPlusCodeChar d1 \<and> isPlusCodeChar d2
      then Some (skipSeparator (dropWhile isPlusCodeChar rest))
      else None)"
| "matchPlusCode _ = None"

lemma length_skipSeparator: "length (skipSeparator s) \<le> length s"
proof -
  have a: "length (dropWhile isWhiteSpace s) \<le> length s"
    by (rule length_dropWhile_le)
  have b: "length (case dropWhile isWhiteSpace s of [] \<Rightarrow> dropWhile isWhiteSpace s
        | c # cs \<Rightarrow> if c = CHR '','' then cs else dropWhile isWhiteSpace s)
      \<le> length (dropWhile isWhiteSpace s)"
    by (simp split: list.splits)
  show ?thesis
    unfolding skipSeparator_def Let_def
    using a b length_dropWhile_le [of isWhiteSpace "case dropWhile isWhiteSpace s of
        [] \<Rightarrow> dropWhile isWhiteSpace s
        | c # cs \<Rightarrow> if c = CHR '','' then cs else dropWhile isWhiteSpace s"]
    by linarith
qed

lemma matchPlusCode_shorter: "matchPlusCode s = Some r \<Longrightarrow> length r < length s"
proof (induction s rule: matchPlusCode.induct)
  case (1 c1 c2 c3 c4 p d1 d2 rest)
  then have r: "r = skipSeparator (dropWhile isPlusCodeChar rest)"
    by (simp split: if_splits)
  have "length r \<le> length rest"
    unfolding r
    using length_skipSeparator [of "dropWhile isPlusCodeChar rest"]
      length_dropWhile_le [of isPlusCodeChar rest] by linarith
  then show ?case by simp
qed simp_all

text \<open>
  \<^verbatim>\<open>.replace(/[A-Z0-9]{4}\+[A-Z0-9]{2,}\s*,?\s*/g, '')\<close>: the string is scanned from the
  left; a match is dropped and the scan goes on after it, otherwise the character is
  kept.
\<close>

function stripPlusCodes :: "string \<Rightarrow> string" where
  "stripPlusCodes [] = []"
| "stripPlusCodes (c # cs) =
     (case matchPlusCode (c # cs) of
        Some rest \<Rightarrow> stripPlusCodes rest
      | None \<Rightarrow> c # stripPlusCodes cs)"
  by pat_completeness auto
termination
  by (relation "measure length") (auto dest: matchPlusCode_shorter)

text \<open>
  \<^verbatim>\<open>/[A-Z0-9]{4}\+[A-Z0-9]{2,}/.test(s)\<close>: some position of the string starts a plus
  code. The fallback removes such matches; step 1 does not use this test.
\<close>

fun looksLikePlusCode :: "string \<Rightarrow> bool" where
  "looksLikePlusCode [] = False"
| "looksLikePlusCode (c # cs) = (matchPlusCode (c # cs) \<noteq> None \<or> looksLikePlusCode cs)"

text \<open>
  \<^verbatim>\<open>.replace(/,\s*,/g, ',')\<close>: a comma, white space and a comma become one comma; the
  scan goes on after the second comma, so matches do not overlap.
\<close>

function collapseCommas :: "string \<Rightarrow> string" where
  "collapseCommas [] = []"
| "collapseCommas (c # cs) =
     (if c = CHR '',''
      then (case dropWhile isWhiteSpace cs of
              [] \<Rightarrow> c # collapseCommas cs
            | d # rest \<Rightarrow> if d = CHR '','' then CHR '','' # collapseCommas rest
                          else c # collapseCommas cs)
      else c # collapseCommas cs)"
  by pat_completeness auto
termination
proof (relation "measure length")
  fix c :: char and cs d rest
  assume "dropWhile isWhiteSpace cs = d # rest"
  with length_dropWhile_le [of isWhiteSpace cs]
  show "(rest, c # cs) \<in> measure length" by simp
qed auto

text \<open>\<^verbatim>\<open>/,\s*,/.test(s)\<close>: the string holds two commas with only white space between them.\<close>

fun hasCommaPair :: "string \<Rightarrow> bool" where
  "hasCommaPair [] = False"
| "hasCommaPair (c # cs) =
     ((c = CHR '','' \<and> (case dropWhile isWhiteSpace cs of [] \<Rightarrow> False | d # _ \<Rightarrow> d = CHR '','')) \<or>
      hasCommaPair cs)"

text \<open>
  \<^verbatim>\<open>.replace(/^\s*,\s*/, '')\<close>: white space, a comma and white space at the start of the
  string are removed, once.
\<close>

definition stripLeadingComma :: "string \<Rightarrow> string" where
  "stripLeadingComma s =
     (case dropWhile isWhiteSpace s of
        [] \<Rightarrow> s
      | c # rest \<Rightarrow> if c = CHR '','' then dropWhile isWhiteSpace rest else s)"

text \<open>
  \<^verbatim>\<open>.replace(/\s*,\s*$/, '')\<close>: the leftmost match that reaches the end of the string is
  the last comma, when only white space follows it, together with all the white space
  before it. On the reversed string this is the leading case.
\<close>

definition stripTrailingComma :: "string \<Rightarrow> string" where
  "stripTrailingComma s = rev (stripLeadingComma (rev s))"

text \<open>
  The chain \<^verbatim>\<open>.replace(/,\s*,/g, ',').replace(/^\s*,\s*/, '').replace(/\s*,\s*$/, '').trim()\<close>,
  applied to the fallback (after the plus codes are removed) and, as the final cleanup,
  to the address.
\<close>

definition cleanup :: "string \<Rightarrow> string" where
  "cleanup s = trim (stripTrailingComma (stripLeadingComma (collapseCommas s)))"

text \<open>
  The last three steps of the chain alone: the boundary commas and the white space at
  both ends are removed.
\<close>

definition boundaryClean :: "string \<Rightarrow> string" where
  "boundaryClean s = trim (stripTrailingComma (stripLeadingComma s))"

text \<open>\<^verbatim>\<open>constructedAddress || 'Location detected'\<close>\<close>

definition orSentinel :: "string \<Rightarrow> string" where
  "orSentinel s = (if s = [] then ''Location detected'' else s)"

text \<open>
  \<^verbatim>\<open>
  if (!addressData) return '';
  ... steps 1 to 7 ...
  let constructedAddress = addressParts.join(', ');
  if (addressParts.length < 3 && formattedAddress) {
    let cleanedAddress = formattedAddress.replace(...)...trim();
    if (cleanedAddress.length > constructedAddress.length) {
      constructedAddress = cleanedAddress; } }
  constructedAddress = constructedAddress.replace(...)...trim();
  return constructedAddress || 'Location detected';
  \<close>
  The argument \<open>None\<close> is \<^verbatim>\<open>null\<close> or \<^verbatim>\<open>undefined\<close>.
\<close>

definition formatAddress :: "geocode option \<Rightarrow> string" where
  "formatAddress addressData =
     (case addressData of
        None \<Rightarrow> []
      | Some a \<Rightarrow>
          let parts = addressParts a;
              constructedAddress = join '', '' parts;
              constructedAddress =
                (if length parts < 3 \<and> truthy (formattedAddress a)
                 then let cleanedAddress = cleanup (stripPlusCodes (str (formattedAddress a)))
                      in if length cleanedAddress > length constructedAddress
                         then cleanedAddress else constructedAddress
                 else constructedAddress);
              constructedAddress = cleanup constructedAddress
          in orSentinel constructedAddress)"

section \<open>Form validation (screens/AddRestaurantScreen.js, screens/EditRestaurantScreen.js)\<close>

text \<open>
  The values the form state holds for latitude and longitude: \<^verbatim>\<open>null\<close> at the start, a
  number once a location is set (the result of \<^verbatim>\<open>parseFloat\<close>, so also \<^verbatim>\<open>NaN\<close> and the
  infinities), or whatever the stored restaurant held, a string for example. Finite
  numbers are reals.
\<close>

datatype jsvalue = JSNull | JSNumber real | JSNaN | JSInfinity bool | JSString string

record restaurantDraft =
  form_name :: string
  form_cuisine :: string
  form_type :: string
  form_description :: string
  form_phone :: string
  form_email :: string
  form_address :: string
  latitude :: jsvalue
  longitude :: jsvalue

text \<open>\<^verbatim>\<open>!v\<close> is the negation of this: \<^verbatim>\<open>null\<close>, 0, \<^verbatim>\<open>NaN\<close> and the empty string are falsy.\<close>

fun js_truthy :: "jsvalue \<Rightarrow> bool" where
  "js_truthy JSNull = False"
| "js_truthy (JSNumber x) = (x \<noteq> 0)"
| "js_truthy JSNaN = False"
| "js_truthy (JSInfinity positive) = True"
| "js_truthy (JSString s) = (s \<noteq> [])"

text \<open>\<^verbatim>\<open>typeof v === 'number'\<close>\<close>

fun typeof_number :: "jsvalue \<Rightarrow> bool" where
  "typeof_number (JSNumber x) = True"
| "typeof_number JSNaN = True"
| "typeof_number (JSInfinity positive) = True"
| "typeof_number JSNull = False"
| "typeof_number (JSString s) = False"

text \<open>
  \<^verbatim>\<open>v < k\<close> and \<^verbatim>\<open>v > k\<close> for a number \<open>v\<close>. In the condition below they are only
  evaluated when both values are numbers (the disjuncts before them are true otherwise),
  so the other cases are not reached.
\<close>

fun number_less :: "jsvalue \<Rightarrow> real \<Rightarrow> bool" where
  "number_less (JSNumber x) k = (x < k)"
| "number_less (JSInfinity positive) k = (\<not> positive)"
| "number_less _ k = False"

fun number_greater :: "jsvalue \<Rightarrow> real \<Rightarrow> bool" where
  "number_greater (JSNumber x) k = (k < x)"
| "number_greater (JSInfinity positive) k = positive"
| "number_greater _ k = False"

text \<open>
  \<^verbatim>\<open>
  !latitude || !longitude ||
  typeof latitude !== 'number' || typeof longitude !== 'number' ||
  latitude < -90 || latitude > 90 || longitude < -180 || longitude > 180
  \<close>
\<close>

definition locationInvalid :: "jsvalue \<Rightarrow> jsvalue \<Rightarrow> bool" where
  "locationInvalid lat lng =
     (\<not> js_truthy lat \<or> \<not> js_truthy lng \<or>
      \<not> typeof_number lat \<or> \<not> typeof_number lng \<or>
      number_less lat (- 90) \<or> number_greater lat 90 \<or>
      number_less lng (- 180) \<or> number_greater lng 180)"

text \<open>
  \<^verbatim>\<open>/\S+@\S+\.\S+/.test(email)\<close>: somewhere in the string a character that is not white
  space stands before an at sign, and after the at sign come one or more such
  characters, a dot, and one more such character. \<open>domainPart\<close> is \<^verbatim>\<open>\S+\.\S\<close> at the
  start of a string, \<open>domainRest\<close> the same after the first character.
\<close>

fun domainRest :: "string \<Rightarrow> bool" where
  "domainRest [] = False"
| "domainRest (c # cs) =
     ((c = CHR ''.'' \<and> (case cs of [] \<Rightarrow> False | d # _ \<Rightarrow> \<not> isWhiteSpace d)) \<or>
      (\<not> isWhiteSpace c \<and> domainRest cs))"

fun domainPart :: "string \<Rightarrow> bool" where
  "domainPart [] = False"
| "domainPart (c # cs) = (\<not> isWhiteSpace c \<and> domainRest cs)"

fun emailTest :: "string \<Rightarrow> bool" where
  "emailTest (a # b # cs) =
     ((\<not> isWhiteSpace a \<and> b = CHR ''@'' \<and> domainPart cs) \<or> emailTest (b # cs))"
| "emailTest _ = False"

text \<open>
  \<^verbatim>\<open>validateForm\<close> of the add screen: each \<^verbatim>\<open>if (...) { Alert.alert(...); return false; }\<close>
  in order, then \<^verbatim>\<open>return true\<close>.
\<close>

definition validateForm :: "restaurantDraft \<Rightarrow> bool" where
  "validateForm formData =
     (if trim (form_name formData) = [] then False
      else if trim (form_cuisine formData) = [] then False
      else if trim (form_type formData) = [] then False
      else if trim (form_description formData) = [] then False
      else if trim (form_phone formData) = [] then False
      else if trim (form_email formData) = [] then False
      else if \<not> emailTest (form_email formData) then False
      else if trim (form_address formData) = [] then False
      else if locationInvalid (latitude formData) (longitude formData) then False
      else True)"

text \<open>\<^verbatim>\<open>validateForm\<close> of the edit screen: the same without the check of the type.\<close>

definition validateFormEdit :: "restaurantDraft \<Rightarrow> bool" where
  "validateFormEdit formData =
     (if trim (form_name formData) = [] then False
      else if trim (form_cuisine formData) = [] then False
      else if trim (form_description formData) = [] then False
      else if trim (form_phone formData) = [] then False
      else if trim (form_email formData) = [] then False
      else if \<not> emailTest (form_email formData) then False
      else if trim (form_address formData) = [] then False
      else if locationInvalid (latitude formData) (longitude formData) then False
      else True)"

section \<open>The cart: facts and properties\<close>

subsection \<open>Facts about the cart operations\<close>

lemma find_Some_mem:
  "find P xs = Some x \<Longrightarrow> x \<in> set xs \<and> P x"
  by (auto simp: find_Some_iff)

lemma line_id_bump:
  "line_id \<circ> (\<lambda>c. if line_id c = i then c\<lparr>quantity := f c\<rparr> else c) = line_id"
  by (auto simp: fun_eq_iff)

lemma addToCart_ok: "cart_ok cart \<Longrightarrow> cart_ok (addToCart item cart)"
  by (auto simp: cart_ok_def addToCart_def line_id_bump list_all_iff find_None_iff
      split: option.splits)

lemma distinct_map_filter_id: "distinct (map f xs) \<Longrightarrow> distinct (map f (filter P xs))"
  by (induction xs) auto

lemma removeFromCart_ok:
  assumes "cart_ok cart" and "removeFromCart itemId cart = Inr cart'"
  shows "cart_ok cart'"
proof (cases "find (\<lambda>c. line_id c = itemId) cart")
  case None
  with assms(2) show ?thesis by (simp add: removeFromCart_def)
next
  case (Some l)
  from assms(1) have d: "distinct (map line_id cart)" and q: "\<forall>c\<in>set cart. 1 \<le> quantity c"
    by (auto simp: cart_ok_def list_all_iff)
  from Some have lm: "l \<in> set cart" "line_id l = itemId"
    using find_Some_mem [of "\<lambda>c. line_id c = itemId" cart l] by auto
  show ?thesis
  proof (cases "quantity l = 1")
    case True
    with Some assms(2) have "cart' = filter (\<lambda>c. line_id c \<noteq> itemId) cart"
      by (simp add: removeFromCart_def)
    with d q show ?thesis
      by (auto simp: cart_ok_def list_all_iff distinct_map_filter_id)
  next
    case False
    with Some assms(2) have c': "cart' = map (\<lambda>c. if line_id c = itemId
        then c\<lparr>quantity := quantity c - 1\<rparr> else c) cart"
      by (simp add: removeFromCart_def)
    have one: "\<forall>c\<in>set cart. line_id c = itemId \<longrightarrow> c = l"
      using d lm by (auto simp: distinct_map inj_on_def)
    from q lm False have "2 \<le> quantity l" by force
    with one q d show ?thesis unfolding c'
      by (auto simp: cart_ok_def list_all_iff line_id_bump)
  qed
qed

lemma applyOps_ok: "cart_ok cart \<Longrightarrow> applyOps ops cart = Inr cart' \<Longrightarrow> cart_ok cart'"
proof (induction ops cart rule: applyOps.induct)
  case (1 cart)
  then show ?case by simp
next
  case (2 item ops cart)
  then show ?case by (simp add: addToCart_ok)
next
  case (3 itemId ops cart)
  then show ?case by (auto split: sum.splits dest: removeFromCart_ok)
qed

lemma removeFromCart_Inl_iff:
  "removeFromCart itemId cart = Inl TypeError \<longleftrightarrow> itemId \<notin> set (map line_id cart)"
  by (auto simp: removeFromCart_def find_None_iff image_iff split: option.splits
      dest: find_Some_mem)

lemma find_append_first:
  "\<forall>x\<in>set xs. \<not> P x \<Longrightarrow> P l \<Longrightarrow> find P (xs @ l # ys) = Some l"
  by (induction xs) auto

lemma addToCart_items:
  "line_item ` set (addToCart item cart) \<subseteq> insert item (line_item ` set cart)"
  by (auto simp: addToCart_def split: option.splits if_splits)

lemma removeFromCart_items:
  "removeFromCart itemId cart = Inr cart' \<Longrightarrow> line_item ` set cart' \<subseteq> line_item ` set cart"
  by (auto simp: removeFromCart_def split: option.splits if_splits)

lemma applyOps_items:
  "applyOps ops cart = Inr cart' \<Longrightarrow>
   line_item ` set cart' \<subseteq> line_item ` set cart \<union> {item. AddItem item \<in> set ops}"
proof (induction ops cart rule: applyOps.induct)
  case (1 cart)
  then show ?case by auto
next
  case (2 item ops cart)
  from 2 have "line_item ` set cart' \<subseteq>
      line_item ` set (addToCart item cart) \<union> {item. AddItem item \<in> set ops}"
    by simp
  with addToCart_items [of item cart] show ?case by (simp add: subset_iff) blast
next
  case (3 itemId ops cart)
  from 3(2) obtain c1 where r: "removeFromCart itemId cart = Inr c1"
    and a: "applyOps ops c1 = Inr cart'"
    by (auto split: sum.splits)
  from 3(1) [OF r a] removeFromCart_items [OF r] show ?case by auto
qed

subsection \<open>Facts about rounding\<close>

lemma roundHalfEven_of_int: "roundHalfEven (of_int n) = n"
  by (simp add: roundHalfEven_def)

lemma roundHalfEven_cases: "roundHalfEven y = \<lfloor>y\<rfloor> \<or> roundHalfEven y = \<lfloor>y\<rfloor> + 1"
  by (simp add: roundHalfEven_def Let_def)

lemma roundHalfEven_nonneg: "0 \<le> y \<Longrightarrow> 0 \<le> roundHalfEven y"
  using roundHalfEven_cases [of y] by (auto simp: zero_le_floor)

lemma roundHalfEven_le: "y \<le> of_int n \<Longrightarrow> roundHalfEven y \<le> n"
proof -
  assume le: "y \<le> of_int n"
  show ?thesis
  proof (cases "y = of_int n")
    case True
    then show ?thesis by (simp add: roundHalfEven_of_int)
  next
    case False
    with le have "y < of_int n" by simp
    then have "\<lfloor>y\<rfloor> < n" by (simp add: floor_less_iff)
    with roundHalfEven_cases [of y] show ?thesis by auto
  qed
qed

lemma roundHalfEven_ge: "of_int n \<le> y \<Longrightarrow> n \<le> roundHalfEven y"
proof -
  assume "of_int n \<le> y"
  then have "n \<le> \<lfloor>y\<rfloor>" by (simp add: le_floor_iff)
  with roundHalfEven_cases [of y] show ?thesis by auto
qed

lemma floor_log2_eq:
  assumes "x \<noteq> 0" and "2 powi e \<le> \<bar>x\<bar>" and "\<bar>x\<bar> < 2 powi (e + 1)"
  shows "\<lfloor>log 2 \<bar>x\<bar>\<rfloor> = e"
proof -
  have a: "(2::real) powr real_of_int e = 2 powi e"
    by (simp add: powr_real_of_int')
  have "(2::real) powr real_of_int (e + 1) = 2 powi (e + 1)"
    by (rule powr_real_of_int') simp_all
  then have b: "(2::real) powr (real_of_int e + 1) = 2 powi (e + 1)"
    by simp
  from assms show ?thesis
    by (subst floor_log_eq_powr_iff) (simp_all add: a b)
qed

lemma floor_log2_bounds:
  assumes "x \<noteq> 0"
  shows "2 powi \<lfloor>log 2 \<bar>x\<bar>\<rfloor> \<le> \<bar>x\<bar> \<and> \<bar>x\<bar> < 2 powi (\<lfloor>log 2 \<bar>x\<bar>\<rfloor> + 1)"
proof -
  define e where "e = \<lfloor>log 2 \<bar>x\<bar>\<rfloor>"
  have a: "(2::real) powr real_of_int e = 2 powi e"
    by (simp add: powr_real_of_int')
  have "(2::real) powr real_of_int (e + 1) = 2 powi (e + 1)"
    by (rule powr_real_of_int') simp_all
  then have b: "(2::real) powr (real_of_int e + 1) = 2 powi (e + 1)"
    by simp
  have "0 < \<bar>x\<bar>" using assms by simp
  then have "2 powr real_of_int e \<le> \<bar>x\<bar> \<and> \<bar>x\<bar> < 2 powr (real_of_int e + 1)"
    using floor_log_eq_powr_iff [of "\<bar>x\<bar>" 2 e] by (simp add: e_def)
  then show ?thesis
    unfolding e_def [symmetric] by (simp only: a b)
qed

text \<open>Below the last binade a result does not overflow.\<close>

lemma round64_eval:
  assumes "x \<noteq> 0" and "2 powi e \<le> \<bar>x\<bar>" and "\<bar>x\<bar> < 2 powi (e + 1)"
    and "- 1022 \<le> e" and "e < 1023"
  shows "round64 x = Finite (of_int (roundHalfEven (x / 2 powi (e - 52))) * 2 powi (e - 52))"
proof -
  define ulp :: real where "ulp = 2 powi (e - 52)"
  define y where "y = x / ulp"
  define m where "m = roundHalfEven y"
  have up: "0 < ulp" by (simp add: ulp_def)
  have fl: "\<lfloor>log 2 \<bar>x\<bar>\<rfloor> = e"
    using assms(1-3) by (rule floor_log2_eq)
  have "(2::real) powi (53 + (e - 52)) = 2 powi 53 * 2 powi (e - 52)"
    by (rule power_int_add) simp
  moreover have "53 + (e - 52) = e + 1" by simp
  ultimately have "(2::real) powi (e + 1) = 2 powi 53 * 2 powi (e - 52)"
    by simp
  then have top: "(2::real) powi (e + 1) = 2 ^ 53 * ulp"
    by (simp add: ulp_def)
  from assms(3) have "\<bar>x\<bar> < 2 ^ 53 * ulp"
    by (simp only: top)
  then have "\<bar>x\<bar> / ulp < 2 ^ 53"
    using up by (simp only: pos_divide_less_eq)
  moreover have "\<bar>y\<bar> = \<bar>x\<bar> / ulp"
    using up by (simp add: y_def abs_divide)
  ultimately have yb: "\<bar>y\<bar> < 2 ^ 53"
    by (simp only:)
  then have y1: "y \<le> of_int (2 ^ 53)" and y2: "of_int (- (2 ^ 53)) \<le> y"
    by (simp_all add: abs_less_iff)
  have "m \<le> 2 ^ 53"
    unfolding m_def using y1 by (rule roundHalfEven_le)
  moreover have "- (2 ^ 53) \<le> m"
    unfolding m_def using y2 by (rule roundHalfEven_ge)
  ultimately have "real_of_int m \<le> real_of_int (2 ^ 53)"
    and "real_of_int (- (2 ^ 53)) \<le> real_of_int m"
    by (simp_all only: of_int_le_iff)
  then have "\<bar>real_of_int m\<bar> \<le> 2 ^ 53"
    by (simp add: abs_le_iff)
  then have "\<bar>real_of_int m\<bar> * ulp \<le> 2 ^ 53 * ulp"
    using up by (simp only: mult_le_cancel_right_pos)
  moreover have "\<bar>real_of_int m * ulp\<bar> = \<bar>real_of_int m\<bar> * ulp"
    using up by (simp add: abs_mult)
  ultimately have "\<bar>real_of_int m * ulp\<bar> \<le> 2 ^ 53 * ulp"
    by (simp only:)
  also have "\<dots> = 2 powi (e + 1)" by (simp only: top)
  also have "\<dots> \<le> 2 powi 1023"
    using assms(5) by (intro power_int_increasing) auto
  also have "\<dots> < (2::real) ^ 1024"
    by (simp only: power_int_numeral) (rule power_strict_increasing, simp_all)
  finally have "\<not> 2 ^ 1024 \<le> \<bar>real_of_int m * ulp\<bar>" by (simp only: not_le)
  then have nov: "\<not> 2 ^ 1024 \<le>
      \<bar>real_of_int (roundHalfEven (x / 2 powi (e - 52))) * 2 powi (e - 52)\<bar>"
    unfolding m_def y_def ulp_def .
  have "max e (- 1022) = e"
    using assms(4) by simp
  then show ?thesis
    using assms(1) nov by (simp only: round64_def Let_def fl if_False simp_thms)
qed

text \<open>The rounded value of a result that is not negative is not negative.\<close>

lemma round64_nonNegative: "0 \<le> x \<Longrightarrow> nonNegative (round64 x)"
proof (cases "x = 0")
  case True
  then show ?thesis by (simp add: round64_def)
next
  case False
  assume "0 \<le> x"
  with False have pos: "0 < x" by simp
  define e where "e = max \<lfloor>log 2 \<bar>x\<bar>\<rfloor> (- 1022)"
  define ulp :: real where "ulp = 2 powi (e - 52)"
  have up: "0 < ulp" by (simp add: ulp_def)
  with pos have "0 \<le> x / ulp" by simp
  then have "0 \<le> roundHalfEven (x / ulp)"
    by (rule roundHalfEven_nonneg)
  with up have r0: "0 \<le> real_of_int (roundHalfEven (x / ulp)) * ulp"
    by simp
  have "round64 x = (if 2 ^ 1024 \<le> \<bar>real_of_int (roundHalfEven (x / ulp)) * ulp\<bar>
      then Infinite (0 < x) else Finite (real_of_int (roundHalfEven (x / ulp)) * ulp))"
    using False by (simp only: round64_def Let_def e_def [symmetric] ulp_def [symmetric] if_False)
  with pos r0 show ?thesis
    by (simp only: nonNegative.simps split: if_split) simp
qed

text \<open>Whole numbers up to \<^verbatim>\<open>2^53\<close> are binary64 values: rounding leaves them as they are.\<close>

lemma round64_of_nat:
  assumes "real n \<le> 2 ^ 53"
  shows "round64 (real n) = Finite (real n)"
proof (cases "n = 0")
  case True
  then show ?thesis by (simp add: round64_def)
next
  case False
  define x where "x = real n"
  define e where "e = \<lfloor>log 2 \<bar>x\<bar>\<rfloor>"
  from False have x1: "1 \<le> x" and x0: "x \<noteq> 0" and xa: "\<bar>x\<bar> = x"
    by (simp_all add: x_def)
  from floor_log2_bounds [OF x0] have lo: "2 powi e \<le> x" and hi: "x < 2 powi (e + 1)"
    by (simp_all add: e_def xa)
  have e0: "0 \<le> e"
    unfolding e_def xa using x1 by simp
  have e53: "e \<le> 53"
  proof (rule ccontr)
    assume "\<not> e \<le> 53"
    then have "(2::real) powi 54 \<le> 2 powi e"
      by (intro power_int_increasing) auto
    with lo assms show False by (simp add: x_def)
  qed
  have ev: "round64 x = Finite (of_int (roundHalfEven (x / 2 powi (e - 52))) * 2 powi (e - 52))"
    using x0 lo hi e0 e53 by (intro round64_eval) (simp_all add: xa)
  have "\<exists>k::int. x / 2 powi (e - 52) = of_int k"
  proof (cases "e \<le> 52")
    case True
    define d where "d = nat (52 - e)"
    from True have "e - 52 = - int d" by (simp add: d_def)
    then have "(2::real) powi (e - 52) = 1 / 2 ^ d"
      by (simp add: power_int_minus_divide)
    then have "x / 2 powi (e - 52) = of_int (int n * 2 ^ d)"
      by (simp add: x_def)
    then show ?thesis by blast
  next
    case False
    with e53 have e: "e = 53" by simp
    with lo assms have "x = 2 ^ 53" by (simp add: x_def)
    with e have "x / 2 powi (e - 52) = of_int (2 ^ 52)" by simp
    then show ?thesis by blast
  qed
  then obtain k :: int where k: "x / 2 powi (e - 52) = of_int k" by blast
  have "(2::real) powi (e - 52) \<noteq> 0" by simp
  with k have "of_int k * 2 powi (e - 52) = x"
    by (simp add: field_simps)
  with ev k show ?thesis
    by (simp add: roundHalfEven_of_int x_def)
qed

lemma round64_Nats: "x \<in> \<nat> \<Longrightarrow> x \<le> 2 ^ 53 \<Longrightarrow> round64 x = Finite x"
  using round64_of_nat by (auto simp: Nats_def)

subsection \<open>Facts about the totals\<close>

lemma add64_nonNegative: "nonNegative a \<Longrightarrow> nonNegative b \<Longrightarrow> nonNegative (add64 a b)"
  by (cases a; cases b) (auto simp: round64_nonNegative)

lemma foldl_nonNegative:
  assumes "\<forall>l\<in>set cart. 0 \<le> f l \<and> 0 \<le> quantity l" and "nonNegative a"
  shows "nonNegative (foldl (\<lambda>total item.
      add64 total (mul64 (Finite (f item)) (Finite (of_int (quantity item))))) a cart)"
  using assms
proof (induction cart arbitrary: a)
  case Nil
  then show ?case by simp
next
  case (Cons l cart)
  then have "0 \<le> f l * of_int (quantity l)" by simp
  then have "nonNegative (mul64 (Finite (f l)) (Finite (of_int (quantity l))))"
    by (simp add: round64_nonNegative)
  with Cons.prems(2) have "nonNegative
      (add64 a (mul64 (Finite (f l)) (Finite (of_int (quantity l)))))"
    by (rule add64_nonNegative)
  with Cons show ?case by simp
qed

lemma foldl_exact:
  assumes "\<forall>l\<in>set cart. f l \<in> \<nat> \<and> 0 \<le> quantity l"
    and "a \<in> \<nat>"
    and "a + (\<Sum>l\<leftarrow>cart. f l * of_int (quantity l)) \<le> 2 ^ 53"
  shows "foldl (\<lambda>total item.
      add64 total (mul64 (Finite (f item)) (Finite (of_int (quantity item))))) (Finite a) cart
    = Finite (a + (\<Sum>l\<leftarrow>cart. f l * of_int (quantity l)))"
  using assms
proof (induction cart arbitrary: a)
  case Nil
  then show ?case by simp
next
  case (Cons l cart)
  define p where "p = f l * of_int (quantity l)"
  define rest where "rest = (\<Sum>l\<leftarrow>cart. f l * of_int (quantity l))"
  from Cons.prems(1) have fl: "f l \<in> \<nat>" and ql: "0 \<le> quantity l"
    and tl: "\<forall>l\<in>set cart. f l \<in> \<nat> \<and> 0 \<le> quantity l"
    by simp_all
  from ql have "real_of_int (quantity l) = real (nat (quantity l))" by simp
  then have "real_of_int (quantity l) \<in> \<nat>" by (metis of_nat_in_Nats)
  with fl have pn: "p \<in> \<nat>"
    unfolding p_def by (rule Nats_mult)
  have rest0: "0 \<le> rest"
    unfolding rest_def using tl
    by (intro sum_list_nonneg) (auto simp: Nats_def)
  from pn have p0: "0 \<le> p" by (auto simp: Nats_def)
  from Cons.prems(2) have a0: "0 \<le> a" by (auto simp: Nats_def)
  from Cons.prems(3) have bound: "a + p + rest \<le> 2 ^ 53"
    by (simp add: p_def rest_def add.assoc)
  from bound a0 rest0 have "p \<le> 2 ^ 53" by linarith
  with pn have rp: "round64 p = Finite p"
    by (simp add: round64_Nats)
  from Cons.prems(2) pn have apn: "a + p \<in> \<nat>" by (rule Nats_add)
  from bound rest0 have "a + p \<le> 2 ^ 53" by linarith
  with apn have rap: "round64 (a + p) = Finite (a + p)"
    by (simp add: round64_Nats)
  have "foldl (\<lambda>total item.
      add64 total (mul64 (Finite (f item)) (Finite (of_int (quantity item))))) (Finite (a + p)) cart
    = Finite (a + p + rest)"
    unfolding rest_def using tl apn bound [unfolded rest_def] by (rule Cons.IH)
  then show ?case
    by (simp add: p_def [symmetric] rest_def [symmetric] rp rap add.assoc)
qed

lemma caloriesOrZero_eq:
  "caloriesOrZero item = (case calories item of None \<Rightarrow> 0 | Some c \<Rightarrow> c)"
  by (simp add: caloriesOrZero_def split: option.splits)

text \<open>The numbers written 0.1 and 0.2, and their sum.\<close>

lemma round64_tenth:
  "round64 (3602879701896397 / 2 ^ 55) = Finite (3602879701896397 / 2 ^ 55)"
  by (subst round64_eval [where e = "-4"]) (simp_all add: roundHalfEven_def)

lemma round64_fifth:
  "round64 (3602879701896397 / 2 ^ 54) = Finite (3602879701896397 / 2 ^ 54)"
  by (subst round64_eval [where e = "-3"]) (simp_all add: roundHalfEven_def)

lemma round64_tenth_plus_fifth:
  "round64 (3602879701896397 / 2 ^ 55 + 3602879701896397 / 2 ^ 54)
     = Finite (5404319552844596 / 2 ^ 54)"
  by (subst round64_eval [where e = "-2"]) (simp_all add: roundHalfEven_def)

text \<open>
  What \<open>removeFromCart\<close> does when the cart holds a line with the given id (one line per
  id, as the cart invariant says): it returns the cart without that line if the line's
  quantity is 1, and otherwise the cart with that line's quantity decremented by 1; all
  other lines stay as they are, in order.
\<close>

lemma removeFromCart_present:
  assumes "line_id l = itemId"
    and "itemId \<notin> set (map line_id xs)"
    and "itemId \<notin> set (map line_id ys)"
  shows "removeFromCart itemId (xs @ l # ys) =
     Inr (if quantity l = 1 then xs @ ys else xs @ l\<lparr>quantity := quantity l - 1\<rparr> # ys)"
proof -
  have f: "find (\<lambda>c. line_id c = itemId) (xs @ l # ys) = Some l"
    using assms(1,2) by (intro find_append_first) (auto simp: image_iff)
  have keep_xs: "filter (\<lambda>c. line_id c \<noteq> itemId) xs = xs"
    and keep_ys: "filter (\<lambda>c. line_id c \<noteq> itemId) ys = ys"
    using assms(2,3) by (auto simp: filter_id_conv image_iff)
  have same_xs: "map (\<lambda>c. if line_id c = itemId then c\<lparr>quantity := quantity c - 1\<rparr> else c) xs = xs"
    and same_ys: "map (\<lambda>c. if line_id c = itemId then c\<lparr>quantity := quantity c - 1\<rparr> else c) ys = ys"
    using assms(2,3) by (auto simp: image_iff intro!: map_idI)
  show ?thesis
    using assms(1) by (simp add: removeFromCart_def f keep_xs keep_ys same_xs same_ys)
qed

lemma removeFromCart_present_example:
  "removeFromCart ''m2''
     [\<lparr>line_item = \<lparr>item_id = ''m1'', item_name = ''Karahi'', price = 900, calories = Some 700,
         isAvailable = True\<rparr>, quantity = 1\<rparr>,
      \<lparr>line_item = \<lparr>item_id = ''m2'', item_name = ''Naan'', price = 40, calories = None,
         isAvailable = True\<rparr>, quantity = 3\<rparr>]
   = Inr
     [\<lparr>line_item = \<lparr>item_id = ''m1'', item_name = ''Karahi'', price = 900, calories = Some 700,
         isAvailable = True\<rparr>, quantity = 1\<rparr>,
      \<lparr>line_item = \<lparr>item_id = ''m2'', item_name = ''Naan'', price = 40, calories = None,
         isAvailable = True\<rparr>, quantity = 2\<rparr>]"
  using removeFromCart_present [of
      "\<lparr>line_item = \<lparr>item_id = ''m2'', item_name = ''Naan'', price = 40, calories = None,
         isAvailable = True\<rparr>, quantity = 3\<rparr>"
      "''m2''"
      "[\<lparr>line_item = \<lparr>item_id = ''m1'', item_name = ''Karahi'', price = 900,
         calories = Some 700, isAvailable = True\<rparr>, quantity = 1\<rparr>]"
      "[]"]
  by simp

subsection \<open>Properties of the cart\<close>

text \<open>
  C1. Removing an item that has no line in the cart should leave the cart as it is. It
  does not: on the empty cart, and on the second of two presses of the remove button of
  an item added once, the updater throws a TypeError and returns no cart.
\<close>

theorem removeFromCart_absent_throws:
  "removeFromCart ''m1'' [] = Inl TypeError \<and>
   applyOps
     [AddItem \<lparr>item_id = ''m1'', item_name = ''Karahi'', price = 900, calories = Some 700,
        isAvailable = True\<rparr>,
      RemoveItem ''m1'', RemoveItem ''m1''] [] = Inl TypeError"
  by (simp add: removeFromCart_def addToCart_def)

text \<open>
  C6 (as amended). For every cart reached from the empty cart by a sequence of add and
  remove presses, the total price is computed from the current lines alone, as the sum
  from 0, line by line, of price times quantity in binary64 arithmetic (each product and
  each sum rounded to the nearest number); it is the exact sum over the lines of price
  times quantity when the prices are whole numbers and that sum is at most \<^verbatim>\<open>2^53\<close>. The
  same holds of the total calories with the calories of a line, 0 when the item has
  none, in place of the price. When every added item has a non-negative price and
  non-negative calories, both totals are non-negative.
\<close>

theorem totals_derived_from_lines:
  assumes "applyOps ops [] = Inr cart"
  shows "getTotalPrice cart =
      foldl add64 (Finite 0)
        (map (\<lambda>l. mul64 (Finite (price (line_item l))) (Finite (of_int (quantity l)))) cart) \<and>
    getTotalCalories cart =
      foldl add64 (Finite 0)
        (map (\<lambda>l. mul64 (Finite (case calories (line_item l) of None \<Rightarrow> 0 | Some c \<Rightarrow> c))
                        (Finite (of_int (quantity l)))) cart) \<and>
    ((\<forall>l\<in>set cart. price (line_item l) \<in> \<nat>) \<and>
       (\<Sum>l\<leftarrow>cart. price (line_item l) * of_int (quantity l)) \<le> 2 ^ 53 \<longrightarrow>
       getTotalPrice cart = Finite (\<Sum>l\<leftarrow>cart. price (line_item l) * of_int (quantity l))) \<and>
    ((\<forall>l\<in>set cart. case calories (line_item l) of None \<Rightarrow> True | Some c \<Rightarrow> c \<in> \<nat>) \<and>
       (\<Sum>l\<leftarrow>cart. (case calories (line_item l) of None \<Rightarrow> 0 | Some c \<Rightarrow> c)
            * of_int (quantity l)) \<le> 2 ^ 53 \<longrightarrow>
       getTotalCalories cart =
         Finite (\<Sum>l\<leftarrow>cart. (case calories (line_item l) of None \<Rightarrow> 0 | Some c \<Rightarrow> c)
                   * of_int (quantity l))) \<and>
    ((\<forall>item. AddItem item \<in> set ops \<longrightarrow>
         0 \<le> price item \<and> (case calories item of None \<Rightarrow> True | Some c \<Rightarrow> 0 \<le> c)) \<longrightarrow>
       nonNegative (getTotalPrice cart) \<and> nonNegative (getTotalCalories cart))"
proof -
  have "cart_ok cart"
    using applyOps_ok [OF _ assms] by (simp add: cart_ok_def)
  then have q: "\<forall>l\<in>set cart. 0 \<le> quantity l"
    by (auto simp: cart_ok_def list_all_iff)
  have items: "\<forall>l\<in>set cart. AddItem (line_item l) \<in> set ops"
    using applyOps_items [OF assms] by auto
  have p1: "getTotalPrice cart =
      foldl add64 (Finite 0)
        (map (\<lambda>l. mul64 (Finite (price (line_item l))) (Finite (of_int (quantity l)))) cart)"
    by (simp add: getTotalPrice_def foldl_map)
  have c1: "getTotalCalories cart =
      foldl add64 (Finite 0)
        (map (\<lambda>l. mul64 (Finite (case calories (line_item l) of None \<Rightarrow> 0 | Some c \<Rightarrow> c))
                        (Finite (of_int (quantity l)))) cart)"
    by (simp add: getTotalCalories_def foldl_map caloriesOrZero_eq)
  have p2: "getTotalPrice cart = Finite (\<Sum>l\<leftarrow>cart. price (line_item l) * of_int (quantity l))"
    if "(\<forall>l\<in>set cart. price (line_item l) \<in> \<nat>) \<and>
       (\<Sum>l\<leftarrow>cart. price (line_item l) * of_int (quantity l)) \<le> 2 ^ 53"
  proof -
    from that q have "\<forall>l\<in>set cart. price (line_item l) \<in> \<nat> \<and> 0 \<le> quantity l"
      by simp
    moreover have "(0::real) \<in> \<nat>" by simp
    moreover from that
    have "0 + (\<Sum>l\<leftarrow>cart. price (line_item l) * of_int (quantity l)) \<le> 2 ^ 53"
      by simp
    ultimately show ?thesis
      using foldl_exact [of cart "\<lambda>l. price (line_item l)" 0]
      by (simp add: getTotalPrice_def)
  qed
  have c2: "getTotalCalories cart =
         Finite (\<Sum>l\<leftarrow>cart. (case calories (line_item l) of None \<Rightarrow> 0 | Some c \<Rightarrow> c)
                   * of_int (quantity l))"
    if h: "(\<forall>l\<in>set cart. case calories (line_item l) of None \<Rightarrow> True | Some c \<Rightarrow> c \<in> \<nat>) \<and>
       (\<Sum>l\<leftarrow>cart. (case calories (line_item l) of None \<Rightarrow> 0 | Some c \<Rightarrow> c)
            * of_int (quantity l)) \<le> 2 ^ 53"
  proof -
    have "\<forall>l\<in>set cart. caloriesOrZero (line_item l) \<in> \<nat> \<and> 0 \<le> quantity l"
    proof
      fix l assume l: "l \<in> set cart"
      with h have "case calories (line_item l) of None \<Rightarrow> True | Some c \<Rightarrow> c \<in> \<nat>"
        by blast
      then have "caloriesOrZero (line_item l) \<in> \<nat>"
        by (simp add: caloriesOrZero_eq split: option.splits)
      with q l show "caloriesOrZero (line_item l) \<in> \<nat> \<and> 0 \<le> quantity l" by simp
    qed
    moreover have "(0::real) \<in> \<nat>" by simp
    moreover from h
    have "0 + (\<Sum>l\<leftarrow>cart. caloriesOrZero (line_item l) * of_int (quantity l)) \<le> 2 ^ 53"
      by (simp add: caloriesOrZero_eq)
    ultimately have "getTotalCalories cart =
        Finite (0 + (\<Sum>l\<leftarrow>cart. caloriesOrZero (line_item l) * of_int (quantity l)))"
      using foldl_exact [of cart "\<lambda>l. caloriesOrZero (line_item l)" 0]
      by (simp add: getTotalCalories_def)
    then show ?thesis by (simp add: caloriesOrZero_eq)
  qed
  have n: "nonNegative (getTotalPrice cart) \<and> nonNegative (getTotalCalories cart)"
    if nn: "\<forall>item. AddItem item \<in> set ops \<longrightarrow>
         0 \<le> price item \<and> (case calories item of None \<Rightarrow> True | Some c \<Rightarrow> 0 \<le> c)"
  proof
    have "\<forall>l\<in>set cart. 0 \<le> price (line_item l) \<and> 0 \<le> quantity l"
      using q items nn by auto
    then show "nonNegative (getTotalPrice cart)"
      unfolding getTotalPrice_def by (rule foldl_nonNegative) simp
    have "\<forall>l\<in>set cart. 0 \<le> caloriesOrZero (line_item l) \<and> 0 \<le> quantity l"
    proof
      fix l assume l: "l \<in> set cart"
      with items nn have "case calories (line_item l) of None \<Rightarrow> True | Some c \<Rightarrow> 0 \<le> c"
        by blast
      then have "0 \<le> caloriesOrZero (line_item l)"
        by (simp add: caloriesOrZero_eq split: option.splits)
      with q l show "0 \<le> caloriesOrZero (line_item l) \<and> 0 \<le> quantity l" by simp
    qed
    then show "nonNegative (getTotalCalories cart)"
      unfolding getTotalCalories_def by (rule foldl_nonNegative) simp
  qed
  from p1 c1 p2 c2 n show ?thesis by blast
qed

theorem totals_derived_from_lines_witness:
  "applyOps
     [AddItem \<lparr>item_id = ''m1'', item_name = ''Karahi'', price = 900, calories = Some 700,
        isAvailable = True\<rparr>,
      AddItem \<lparr>item_id = ''m2'', item_name = ''Naan'', price = 40, calories = None,
        isAvailable = True\<rparr>,
      AddItem \<lparr>item_id = ''m1'', item_name = ''Karahi'', price = 900, calories = Some 700,
        isAvailable = True\<rparr>,
      AddItem \<lparr>item_id = ''m2'', item_name = ''Naan'', price = 40, calories = None,
        isAvailable = True\<rparr>,
      RemoveItem ''m2''] []
   = Inr [\<lparr>line_item = \<lparr>item_id = ''m1'', item_name = ''Karahi'', price = 900,
        calories = Some 700, isAvailable = True\<rparr>, quantity = 2\<rparr>,
      \<lparr>line_item = \<lparr>item_id = ''m2'', item_name = ''Naan'', price = 40, calories = None,
        isAvailable = True\<rparr>, quantity = 1\<rparr>]
   \<and> getTotalPrice
       [\<lparr>line_item = \<lparr>item_id = ''m1'', item_name = ''Karahi'', price = 900,
          calories = Some 700, isAvailable = True\<rparr>, quantity = 2\<rparr>,
        \<lparr>line_item = \<lparr>item_id = ''m2'', item_name = ''Naan'', price = 40, calories = None,
          isAvailable = True\<rparr>, quantity = 1\<rparr>] = Finite 1840
   \<and> getTotalCalories
       [\<lparr>line_item = \<lparr>item_id = ''m1'', item_name = ''Karahi'', price = 900,
          calories = Some 700, isAvailable = True\<rparr>, quantity = 2\<rparr>,
        \<lparr>line_item = \<lparr>item_id = ''m2'', item_name = ''Naan'', price = 40, calories = None,
          isAvailable = True\<rparr>, quantity = 1\<rparr>] = Finite 1400
   \<and> nonNegative (getTotalPrice
       [\<lparr>line_item = \<lparr>item_id = ''m1'', item_name = ''Karahi'', price = 900,
          calories = Some 700, isAvailable = True\<rparr>, quantity = 2\<rparr>,
        \<lparr>line_item = \<lparr>item_id = ''m2'', item_name = ''Naan'', price = 40, calories = None,
          isAvailable = True\<rparr>, quantity = 1\<rparr>])
   \<and> nonNegative (getTotalCalories
       [\<lparr>line_item = \<lparr>item_id = ''m1'', item_name = ''Karahi'', price = 900,
          calories = Some 700, isAvailable = True\<rparr>, quantity = 2\<rparr>,
        \<lparr>line_item = \<lparr>item_id = ''m2'', item_name = ''Naan'', price = 40, calories = None,
          isAvailable = True\<rparr>, quantity = 1\<rparr>])"
proof -
  have run: "applyOps
     [AddItem \<lparr>item_id = ''m1'', item_name = ''Karahi'', price = 900, calories = Some 700,
        isAvailable = True\<rparr>,
      AddItem \<lparr>item_id = ''m2'', item_name = ''Naan'', price = 40, calories = None,
        isAvailable = True\<rparr>,
      AddItem \<lparr>item_id = ''m1'', item_name = ''Karahi'', price = 900, calories = Some 700,
        isAvailable = True\<rparr>,
      AddItem \<lparr>item_id = ''m2'', item_name = ''Naan'', price = 40, calories = None,
        isAvailable = True\<rparr>,
      RemoveItem ''m2''] []
   = Inr [\<lparr>line_item = \<lparr>item_id = ''m1'', item_name = ''Karahi'', price = 900,
        calories = Some 700, isAvailable = True\<rparr>, quantity = 2\<rparr>,
      \<lparr>line_item = \<lparr>item_id = ''m2'', item_name = ''Naan'', price = 40, calories = None,
        isAvailable = True\<rparr>, quantity = 1\<rparr>]"
    by (simp add: addToCart_def removeFromCart_def)
  note t = totals_derived_from_lines [OF run]
  from t [THEN conjunct2, THEN conjunct2, THEN conjunct1]
  have p: "getTotalPrice
       [\<lparr>line_item = \<lparr>item_id = ''m1'', item_name = ''Karahi'', price = 900,
          calories = Some 700, isAvailable = True\<rparr>, quantity = 2\<rparr>,
        \<lparr>line_item = \<lparr>item_id = ''m2'', item_name = ''Naan'', price = 40, calories = None,
          isAvailable = True\<rparr>, quantity = 1\<rparr>] = Finite 1840"
    by simp
  from t [THEN conjunct2, THEN conjunct2, THEN conjunct2, THEN conjunct1]
  have c: "getTotalCalories
       [\<lparr>line_item = \<lparr>item_id = ''m1'', item_name = ''Karahi'', price = 900,
          calories = Some 700, isAvailable = True\<rparr>, quantity = 2\<rparr>,
        \<lparr>line_item = \<lparr>item_id = ''m2'', item_name = ''Naan'', price = 40, calories = None,
          isAvailable = True\<rparr>, quantity = 1\<rparr>] = Finite 1400"
    by simp
  from run p c show ?thesis by simp
qed

text \<open>
  C6 as stated fails: with the items priced 0.1 and 0.2 (the binary64 numbers so written)
  in the cart, once each, the total price is the number written 0.30000000000000004, not
  the sum of the two prices; the sum in binary64 arithmetic is rounded.
\<close>

theorem totals_rounding_counterexample:
  "applyOps
     [AddItem \<lparr>item_id = ''m3'', item_name = ''Mint'', price = 3602879701896397 / 2 ^ 55,
        calories = None, isAvailable = True\<rparr>,
      AddItem \<lparr>item_id = ''m4'', item_name = ''Lime'', price = 3602879701896397 / 2 ^ 54,
        calories = None, isAvailable = True\<rparr>] []
   = Inr [\<lparr>line_item = \<lparr>item_id = ''m3'', item_name = ''Mint'',
        price = 3602879701896397 / 2 ^ 55, calories = None, isAvailable = True\<rparr>, quantity = 1\<rparr>,
      \<lparr>line_item = \<lparr>item_id = ''m4'', item_name = ''Lime'',
        price = 3602879701896397 / 2 ^ 54, calories = None, isAvailable = True\<rparr>, quantity = 1\<rparr>]
   \<and> getTotalPrice
       [\<lparr>line_item = \<lparr>item_id = ''m3'', item_name = ''Mint'',
          price = 3602879701896397 / 2 ^ 55, calories = None, isAvailable = True\<rparr>, quantity = 1\<rparr>,
        \<lparr>line_item = \<lparr>item_id = ''m4'', item_name = ''Lime'',
          price = 3602879701896397 / 2 ^ 54, calories = None, isAvailable = True\<rparr>, quantity = 1\<rparr>]
     = Finite (5404319552844596 / 2 ^ 54)
   \<and> (\<Sum>l\<leftarrow>[\<lparr>line_item = \<lparr>item_id = ''m3'', item_name = ''Mint'',
          price = 3602879701896397 / 2 ^ 55, calories = None, isAvailable = True\<rparr>, quantity = 1\<rparr>,
        \<lparr>line_item = \<lparr>item_id = ''m4'', item_name = ''Lime'',
          price = 3602879701896397 / 2 ^ 54, calories = None, isAvailable = True\<rparr>, quantity = 1\<rparr>].
        price (line_item l) * of_int (quantity l)) = 10808639105689191 / 2 ^ 55
   \<and> (5404319552844596 / 2 ^ 54 :: real) \<noteq> 10808639105689191 / 2 ^ 55"
proof (intro conjI)
  show "applyOps
     [AddItem \<lparr>item_id = ''m3'', item_name = ''Mint'', price = 3602879701896397 / 2 ^ 55,
        calories = None, isAvailable = True\<rparr>,
      AddItem \<lparr>item_id = ''m4'', item_name = ''Lime'', price = 3602879701896397 / 2 ^ 54,
        calories = None, isAvailable = True\<rparr>] []
   = Inr [\<lparr>line_item = \<lparr>item_id = ''m3'', item_name = ''Mint'',
        price = 3602879701896397 / 2 ^ 55, calories = None, isAvailable = True\<rparr>, quantity = 1\<rparr>,
      \<lparr>line_item = \<lparr>item_id = ''m4'', item_name = ''Lime'',
        price = 3602879701896397 / 2 ^ 54, calories = None, isAvailable = True\<rparr>, quantity = 1\<rparr>]"
    by (simp add: addToCart_def)
  have "getTotalPrice
       [\<lparr>line_item = \<lparr>item_id = ''m3'', item_name = ''Mint'',
          price = 3602879701896397 / 2 ^ 55, calories = None, isAvailable = True\<rparr>, quantity = 1\<rparr>,
        \<lparr>line_item = \<lparr>item_id = ''m4'', item_name = ''Lime'',
          price = 3602879701896397 / 2 ^ 54, calories = None, isAvailable = True\<rparr>, quantity = 1\<rparr>]
     = add64 (add64 (Finite 0) (mul64 (Finite (3602879701896397 / 2 ^ 55)) (Finite 1)))
         (mul64 (Finite (3602879701896397 / 2 ^ 54)) (Finite 1))"
    by (simp only: getTotalPrice_def foldl.simps cartLine.simps menuItem.simps of_int_1)
  also have "mul64 (Finite (3602879701896397 / 2 ^ 55)) (Finite 1)
      = Finite (3602879701896397 / 2 ^ 55)"
    by (simp only: mul64.simps mult_1_right round64_tenth)
  also have "mul64 (Finite (3602879701896397 / 2 ^ 54)) (Finite 1)
      = Finite (3602879701896397 / 2 ^ 54)"
    by (simp only: mul64.simps mult_1_right round64_fifth)
  also have "add64 (Finite 0) (Finite (3602879701896397 / 2 ^ 55))
      = Finite (3602879701896397 / 2 ^ 55)"
    by (simp only: add64.simps add_0_left round64_tenth)
  also have "add64 (Finite (3602879701896397 / 2 ^ 55)) (Finite (3602879701896397 / 2 ^ 54))
      = Finite (5404319552844596 / 2 ^ 54)"
    by (simp only: add64.simps round64_tenth_plus_fifth)
  finally show "getTotalPrice
       [\<lparr>line_item = \<lparr>item_id = ''m3'', item_name = ''Mint'',
          price = 3602879701896397 / 2 ^ 55, calories = None, isAvailable = True\<rparr>, quantity = 1\<rparr>,
        \<lparr>line_item = \<lparr>item_id = ''m4'', item_name = ''Lime'',
          price = 3602879701896397 / 2 ^ 54, calories = None, isAvailable = True\<rparr>, quantity = 1\<rparr>]
     = Finite (5404319552844596 / 2 ^ 54)" .
  show "(\<Sum>l\<leftarrow>[\<lparr>line_item = \<lparr>item_id = ''m3'', item_name = ''Mint'',
          price = 3602879701896397 / 2 ^ 55, calories = None, isAvailable = True\<rparr>, quantity = 1\<rparr>,
        \<lparr>line_item = \<lparr>item_id = ''m4'', item_name = ''Lime'',
          price = 3602879701896397 / 2 ^ 54, calories = None, isAvailable = True\<rparr>, quantity = 1\<rparr>].
        price (line_item l) * of_int (quantity l)) = 10808639105689191 / 2 ^ 55"
    by simp
  show "(5404319552844596 / 2 ^ 54 :: real) \<noteq> 10808639105689191 / 2 ^ 55"
    by simp
qed

text \<open>
  C7. Every cart reached from the empty cart by add presses and by remove presses on ids
  that are in the cart (a remove on an absent id ends the run with the error) has at most
  one line per item id and only quantities of at least 1; and removing an item whose line
  has quantity 1 deletes the line instead of leaving a quantity of 0.
\<close>

theorem cart_invariant:
  assumes "applyOps ops [] = Inr cart"
  shows "distinct (map line_id cart) \<and> (\<forall>l\<in>set cart. 1 \<le> quantity l) \<and>
    (\<forall>l\<in>set cart. quantity l = 1 \<longrightarrow>
       (\<exists>cart'. removeFromCart (line_id l) cart = Inr cart' \<and>
          line_id l \<notin> set (map line_id cart') \<and> length cart' < length cart))"
proof -
  have ok: "cart_ok cart"
    using applyOps_ok [OF _ assms] by (simp add: cart_ok_def)
  then have d: "distinct (map line_id cart)" and q: "\<forall>l\<in>set cart. 1 \<le> quantity l"
    by (auto simp: cart_ok_def list_all_iff)
  have r: "\<exists>cart'. removeFromCart (line_id l) cart = Inr cart' \<and>
          line_id l \<notin> set (map line_id cart') \<and> length cart' < length cart"
    if l: "l \<in> set cart" and one: "quantity l = 1" for l
  proof -
    from l obtain xs ys where split: "cart = xs @ l # ys"
      by (auto simp: in_set_conv_decomp)
    with d have nx: "line_id l \<notin> set (map line_id xs)" and ny: "line_id l \<notin> set (map line_id ys)"
      by auto
    have f: "find (\<lambda>c. line_id c = line_id l) (xs @ l # ys) = Some l"
      using nx by (intro find_append_first) (auto simp: image_iff)
    have keep: "filter (\<lambda>c. line_id c \<noteq> line_id l) xs = xs"
      "filter (\<lambda>c. line_id c \<noteq> line_id l) ys = ys"
      using nx ny by (auto simp: filter_id_conv image_iff)
    have "removeFromCart (line_id l) cart = Inr (xs @ ys)"
      unfolding split using one by (simp add: removeFromCart_def f keep)
    with nx ny split show ?thesis by auto
  qed
  from d q r show ?thesis by blast
qed

theorem cart_invariant_witness:
  "applyOps
     [AddItem \<lparr>item_id = ''m1'', item_name = ''Karahi'', price = 900, calories = Some 700,
        isAvailable = True\<rparr>,
      AddItem \<lparr>item_id = ''m1'', item_name = ''Karahi'', price = 900, calories = Some 700,
        isAvailable = True\<rparr>,
      RemoveItem ''m1''] []
   = Inr [\<lparr>line_item = \<lparr>item_id = ''m1'', item_name = ''Karahi'', price = 900,
        calories = Some 700, isAvailable = True\<rparr>, quantity = 1\<rparr>]
   \<and> distinct (map line_id [\<lparr>line_item = \<lparr>item_id = ''m1'', item_name = ''Karahi'', price = 900,
        calories = Some 700, isAvailable = True\<rparr>, quantity = 1\<rparr>])
   \<and> removeFromCart ''m1'' [\<lparr>line_item = \<lparr>item_id = ''m1'', item_name = ''Karahi'',
        price = 900, calories = Some 700, isAvailable = True\<rparr>, quantity = 1\<rparr>] = Inr []"
proof -
  have run: "applyOps
     [AddItem \<lparr>item_id = ''m1'', item_name = ''Karahi'', price = 900, calories = Some 700,
        isAvailable = True\<rparr>,
      AddItem \<lparr>item_id = ''m1'', item_name = ''Karahi'', price = 900, calories = Some 700,
        isAvailable = True\<rparr>,
      RemoveItem ''m1''] []
   = Inr [\<lparr>line_item = \<lparr>item_id = ''m1'', item_name = ''Karahi'', price = 900,
        calories = Some 700, isAvailable = True\<rparr>, quantity = 1\<rparr>]"
    by (simp add: addToCart_def removeFromCart_def)
  from cart_invariant [OF run] run show ?thesis
    by (simp add: removeFromCart_def)
qed

section \<open>The registry: facts and properties\<close>

subsection \<open>Facts about strings\<close>

lemma isWhiteSpace_toLowerChar: "isWhiteSpace (toLowerChar c) = isWhiteSpace c"
proof (cases c)
  case (Char b0 b1 b2 b3 b4 b5 b6 b7)
  show ?thesis unfolding Char
    by (cases b0; cases b1; cases b2; cases b3; cases b4; cases b5; cases b6; cases b7)
       (simp_all add: isWhiteSpace_def toLowerChar_def char_of_def)
qed

lemma dropWhile_toLowerCase:
  "dropWhile isWhiteSpace (toLowerCase s) = toLowerCase (dropWhile isWhiteSpace s)"
  by (induction s) (simp_all add: toLowerCase_def isWhiteSpace_toLowerChar)

lemma trim_toLowerCase: "trim (toLowerCase s) = toLowerCase (trim s)"
proof -
  have r: "rev (toLowerCase t) = toLowerCase (rev t)" for t
    by (simp add: toLowerCase_def rev_map)
  show ?thesis
    by (simp add: trim_def dropWhile_toLowerCase r)
qed

lemma str_includes_sublist: "str_includes s t \<longleftrightarrow> sublist t s"
  by (induction s) (auto simp: sublist_Cons_right)

subsection \<open>Facts about grouping\<close>

lemma reduceGroups_buckets:
  assumes "\<forall>r\<in>set rs. typeOrOther r \<notin> set objectPrototypeKeys"
  shows "reduceGroups acc rs =
     Inr (\<lambda>k. case acc k of
                 None \<Rightarrow> (if filter (\<lambda>r. typeOrOther r = k) rs = [] then None
                           else Some (filter (\<lambda>r. typeOrOther r = k) rs))
               | Some old \<Rightarrow> Some (old @ filter (\<lambda>r. typeOrOther r = k) rs))"
  using assms
proof (induction rs arbitrary: acc)
  case Nil
  show ?case by (auto simp: fun_eq_iff split: option.splits)
next
  case (Cons r rs)
  from Cons.prems have nk: "typeOrOther r \<notin> set objectPrototypeKeys"
    and rest: "\<forall>r\<in>set rs. typeOrOther r \<notin> set objectPrototypeKeys"
    by auto
  show ?case
  proof (cases "acc (typeOrOther r)")
    case None
    with nk have step: "groupStep acc r = Inr (acc(typeOrOther r \<mapsto> [r]))"
      by (simp add: groupStep_def)
    show ?thesis
      using None by (auto simp: step Cons.IH [OF rest] fun_eq_iff split: option.splits)
  next
    case (Some bucket)
    then have step: "groupStep acc r = Inr (acc(typeOrOther r \<mapsto> bucket @ [r]))"
      by (simp add: groupStep_def)
    show ?thesis
      using Some by (auto simp: step Cons.IH [OF rest] fun_eq_iff split: option.splits)
  qed
qed

subsection \<open>Properties of the registry\<close>

text \<open>
  C2 (as amended). For every list of restaurants none of whose keys is a property
  inherited from \<^verbatim>\<open>Object.prototype\<close>, \<open>groupRestaurantsByType\<close> returns the map that
  sends a key to the restaurants with that key, in their order in the list, and has no
  entry for a key no restaurant has. The key of a restaurant is \<open>''Other''\<close> when its type
  is missing or empty, and its type itself otherwise, whether the registry knows that
  type or not.
\<close>

theorem groupRestaurantsByType_buckets:
  assumes "\<forall>r\<in>set restaurants. typeOrOther r \<notin> set objectPrototypeKeys"
  shows "groupRestaurantsByType restaurants =
       Inr (\<lambda>k. if filter (\<lambda>r. typeOrOther r = k) restaurants = [] then None
                 else Some (filter (\<lambda>r. typeOrOther r = k) restaurants)) \<and>
     (\<forall>r. (r_type r = None \<or> r_type r = Some [] \<longrightarrow> typeOrOther r = ''Other'') \<and>
          (\<forall>t. r_type r = Some t \<and> t \<noteq> [] \<longrightarrow> typeOrOther r = t))"
  using reduceGroups_buckets [OF assms, of Map.empty]
  by (auto simp: groupRestaurantsByType_def typeOrOther_def)

theorem groupRestaurantsByType_buckets_witness:
  "groupRestaurantsByType
     [\<lparr>r_id = ''r1'', r_name = ''Beans'', r_type = Some ''Cafe''\<rparr>,
      \<lparr>r_id = ''r2'', r_name = ''Dhaba'', r_type = None\<rparr>,
      \<lparr>r_id = ''r3'', r_name = ''Sakura'', r_type = Some ''Sushi''\<rparr>,
      \<lparr>r_id = ''r4'', r_name = ''Chai'', r_type = Some ''Cafe''\<rparr>]
   = Inr (\<lambda>k. if k = ''Cafe'' then Some [\<lparr>r_id = ''r1'', r_name = ''Beans'', r_type = Some ''Cafe''\<rparr>,
                                       \<lparr>r_id = ''r4'', r_name = ''Chai'', r_type = Some ''Cafe''\<rparr>]
              else if k = ''Other'' then Some [\<lparr>r_id = ''r2'', r_name = ''Dhaba'', r_type = None\<rparr>]
              else if k = ''Sushi'' then Some [\<lparr>r_id = ''r3'', r_name = ''Sakura'', r_type = Some ''Sushi''\<rparr>]
              else None)"
proof -
  have ok: "\<forall>r\<in>set [\<lparr>r_id = ''r1'', r_name = ''Beans'', r_type = Some ''Cafe''\<rparr>,
      \<lparr>r_id = ''r2'', r_name = ''Dhaba'', r_type = None\<rparr>,
      \<lparr>r_id = ''r3'', r_name = ''Sakura'', r_type = Some ''Sushi''\<rparr>,
      \<lparr>r_id = ''r4'', r_name = ''Chai'', r_type = Some ''Cafe''\<rparr>].
        typeOrOther r \<notin> set objectPrototypeKeys"
    by (simp add: typeOrOther_def objectPrototypeKeys_def)
  from groupRestaurantsByType_buckets [OF ok] show ?thesis
    by (auto simp: typeOrOther_def fun_eq_iff)
qed

text \<open>
  C2 as stated fails: a restaurant of type Sushi, which is not in the registry, is put in
  the bucket Sushi, and there is no bucket Other.
\<close>

theorem groupRestaurantsByType_unknown_counterexample:
  "''Sushi'' \<notin> set (map type_name RESTAURANT_TYPES) \<and>
   (case groupRestaurantsByType [\<lparr>r_id = ''r3'', r_name = ''Sakura'', r_type = Some ''Sushi''\<rparr>] of
      Inl e \<Rightarrow> False
    | Inr m \<Rightarrow> m ''Other'' = None \<and>
        m ''Sushi'' = Some [\<lparr>r_id = ''r3'', r_name = ''Sakura'', r_type = Some ''Sushi''\<rparr>])"
  by (simp add: RESTAURANT_TYPES_def groupRestaurantsByType_def groupStep_def typeOrOther_def
      objectPrototypeKeys_def Let_def)

text \<open>A key inherited from \<^verbatim>\<open>Object.prototype\<close> makes the reduction throw.\<close>

lemma groupRestaurantsByType_inherited_key:
  "groupRestaurantsByType [\<lparr>r_id = ''r5'', r_name = ''X'', r_type = Some ''constructor''\<rparr>]
     = Inl TypeError"
  by (simp add: groupRestaurantsByType_def groupStep_def typeOrOther_def objectPrototypeKeys_def
      Let_def)

text \<open>
  C10 (as amended). \<open>searchRestaurantTypes\<close> returns the entries of the registry, in
  declared order, whose name or description contains the query with its leading and
  trailing white space removed, compared without regard to case; a query that is empty or
  only white space returns all 11 entries in declared order, and the query fine returns
  exactly the entry Fine Dining.
\<close>

theorem searchRestaurantTypes_filter:
  "searchRestaurantTypes query =
     (if trim query = [] then RESTAURANT_TYPES
      else filter (\<lambda>type. sublist (toLowerCase (trim query)) (toLowerCase (type_name type)) \<or>
                          sublist (toLowerCase (trim query)) (toLowerCase (type_description type)))
             RESTAURANT_TYPES) \<and>
   length RESTAURANT_TYPES = 11 \<and>
   searchRestaurantTypes [] = RESTAURANT_TYPES \<and>
   searchRestaurantTypes ''fine'' =
     [\<lparr>type_name = ''Fine Dining'', type_color = ''#8E24AA'',
        type_description = ''Upscale restaurants with premium service''\<rparr>]"
proof (intro conjI)
  have e: "query = [] \<Longrightarrow> trim query = []"
    by (simp add: trim_def)
  show "searchRestaurantTypes query =
     (if trim query = [] then RESTAURANT_TYPES
      else filter (\<lambda>type. sublist (toLowerCase (trim query)) (toLowerCase (type_name type)) \<or>
                          sublist (toLowerCase (trim query)) (toLowerCase (type_description type)))
             RESTAURANT_TYPES)"
    using e by (auto simp: searchRestaurantTypes_def Let_def trim_toLowerCase str_includes_sublist)
  show "length RESTAURANT_TYPES = 11"
    by (simp add: RESTAURANT_TYPES_def)
  show "searchRestaurantTypes [] = RESTAURANT_TYPES"
    by (simp add: searchRestaurantTypes_def)
  show "searchRestaurantTypes ''fine'' =
     [\<lparr>type_name = ''Fine Dining'', type_color = ''#8E24AA'',
        type_description = ''Upscale restaurants with premium service''\<rparr>]"
    by code_simp
qed

text \<open>
  C10 as stated fails: for the query fine with a space before it the search returns the
  entry Fine Dining, although no name and no description contains that query (with its
  space) as a substring in any case.
\<close>

theorem searchRestaurantTypes_untrimmed_counterexample:
  "searchRestaurantTypes '' fine'' =
     [\<lparr>type_name = ''Fine Dining'', type_color = ''#8E24AA'',
        type_description = ''Upscale restaurants with premium service''\<rparr>] \<and>
   filter (\<lambda>type. sublist (toLowerCase '' fine'') (toLowerCase (type_name type)) \<or>
                  sublist (toLowerCase '' fine'') (toLowerCase (type_description type)))
     RESTAURANT_TYPES = []"
proof
  show "searchRestaurantTypes '' fine'' =
     [\<lparr>type_name = ''Fine Dining'', type_color = ''#8E24AA'',
        type_description = ''Upscale restaurants with premium service''\<rparr>]"
    by code_simp
  show "filter (\<lambda>type. sublist (toLowerCase '' fine'') (toLowerCase (type_name type)) \<or>
                  sublist (toLowerCase '' fine'') (toLowerCase (type_description type)))
     RESTAURANT_TYPES = []"
    unfolding str_includes_sublist [symmetric] by code_simp
qed

section \<open>The address formatting: facts and properties\<close>

subsection \<open>Facts about the cleaning steps\<close>

lemma str_includes_plus: "str_includes s ''+'' \<longleftrightarrow> CHR ''+'' \<in> set s"
  by (induction s) auto

lemma matchPlusCode_has_plus: "matchPlusCode s = Some r \<Longrightarrow> CHR ''+'' \<in> set s"
  by (induction s rule: matchPlusCode.induct) (auto split: if_splits)

lemma looksLikePlusCode_has_plus: "looksLikePlusCode s \<Longrightarrow> CHR ''+'' \<in> set s"
proof (induction s)
  case Nil
  then show ?case by simp
next
  case (Cons c cs)
  show ?case
  proof (cases "matchPlusCode (c # cs)")
    case None
    with Cons show ?thesis by simp
  next
    case (Some r)
    then show ?thesis by (rule matchPlusCode_has_plus)
  qed
qed

lemma cleanup_Nil: "cleanup [] = []"
  by (simp add: cleanup_def trim_def stripTrailingComma_def stripLeadingComma_def)

lemma dropWhile_self: "xs = [] \<or> \<not> P (hd xs) \<Longrightarrow> dropWhile P xs = xs"
  by (cases xs) auto

lemma trim_trim: "trim (trim s) = trim s"
proof -
  define t where "t = dropWhile isWhiteSpace s"
  define u where "u = dropWhile isWhiteSpace (rev t)"
  have t_hd: "t = [] \<or> \<not> isWhiteSpace (hd t)"
    unfolding t_def using hd_dropWhile [of isWhiteSpace s] by auto
  have u_hd: "u = [] \<or> \<not> isWhiteSpace (hd u)"
    unfolding u_def using hd_dropWhile [of isWhiteSpace "rev t"] by auto
  have "rev t = takeWhile isWhiteSpace (rev t) @ u"
    unfolding u_def by simp
  then have "t = rev u @ rev (takeWhile isWhiteSpace (rev t))"
    by (metis rev_append rev_rev_ident)
  then have "rev u = [] \<or> (t \<noteq> [] \<and> hd (rev u) = hd t)"
    by (metis append_is_Nil_conv hd_append2)
  with t_hd have ru_hd: "rev u = [] \<or> \<not> isWhiteSpace (hd (rev u))"
    by auto
  have "trim (rev u) = rev (dropWhile isWhiteSpace (rev (dropWhile isWhiteSpace (rev u))))"
    by (simp add: trim_def)
  also have "dropWhile isWhiteSpace (rev u) = rev u"
    using ru_hd by (rule dropWhile_self)
  also have "dropWhile isWhiteSpace (rev (rev u)) = u"
    using u_hd by (simp add: dropWhile_self)
  finally have "trim (rev u) = rev u" .
  moreover have "trim s = rev u"
    by (simp add: trim_def t_def u_def)
  ultimately show ?thesis by simp
qed

lemma comma_not_space: "\<not> isWhiteSpace CHR '',''"
  by (simp add: isWhiteSpace_def)

lemma dropWhile_all: "list_all P w \<Longrightarrow> dropWhile P (w @ x # q) = dropWhile P (x # q)"
  by (induction w) auto

lemma hasCommaPair_iff:
  "hasCommaPair s \<longleftrightarrow>
     (\<exists>p w q. s = p @ CHR '','' # w @ CHR '','' # q \<and> list_all isWhiteSpace w)"
proof
  show "hasCommaPair s \<Longrightarrow>
     \<exists>p w q. s = p @ CHR '','' # w @ CHR '','' # q \<and> list_all isWhiteSpace w"
  proof (induction s)
    case Nil
    then show ?case by simp
  next
    case (Cons c cs)
    show ?case
    proof (cases "hasCommaPair cs")
      case True
      with Cons.IH obtain p w q where "cs = p @ CHR '','' # w @ CHR '','' # q"
        "list_all isWhiteSpace w" by blast
      then have "c # cs = (c # p) @ CHR '','' # w @ CHR '','' # q \<and> list_all isWhiteSpace w"
        by simp
      then show ?thesis by blast
    next
      case False
      with Cons.prems obtain r where c: "c = CHR '',''"
        and d: "dropWhile isWhiteSpace cs = CHR '','' # r"
        by (auto split: list.splits)
      have "cs = takeWhile isWhiteSpace cs @ dropWhile isWhiteSpace cs" by simp
      with d have "cs = takeWhile isWhiteSpace cs @ CHR '','' # r" by simp
      with c have "c # cs = [] @ CHR '','' # takeWhile isWhiteSpace cs @ CHR '','' # r
          \<and> list_all isWhiteSpace (takeWhile isWhiteSpace cs)"
        by (simp add: list_all_iff) (meson set_takeWhileD)
      then show ?thesis by blast
    qed
  qed
next
  assume "\<exists>p w q. s = p @ CHR '','' # w @ CHR '','' # q \<and> list_all isWhiteSpace w"
  then obtain p w q where s: "s = p @ CHR '','' # w @ CHR '','' # q"
    and w: "list_all isWhiteSpace w" by blast
  show "hasCommaPair s" unfolding s
  proof (induction p)
    case Nil
    from w show ?case by (simp add: dropWhile_all comma_not_space)
  next
    case (Cons a p)
    then show ?case by simp
  qed
qed

lemma hasCommaPair_rev: "hasCommaPair (rev s) = hasCommaPair s"
proof -
  have "hasCommaPair (rev t)" if "hasCommaPair t" for t
  proof -
    from that obtain p w q where "t = p @ CHR '','' # w @ CHR '','' # q" "list_all isWhiteSpace w"
      unfolding hasCommaPair_iff by blast
    then have "rev t = rev q @ CHR '','' # rev w @ CHR '','' # rev p \<and> list_all isWhiteSpace (rev w)"
      by (simp add: list_all_iff)
    then show ?thesis unfolding hasCommaPair_iff by blast
  qed
  from this [of s] this [of "rev s"] show ?thesis by auto
qed

lemma hasCommaPair_append: "hasCommaPair m \<Longrightarrow> hasCommaPair (l @ m @ r)"
proof -
  assume "hasCommaPair m"
  then obtain p w q where "m = p @ CHR '','' # w @ CHR '','' # q" "list_all isWhiteSpace w"
    unfolding hasCommaPair_iff by blast
  then have "l @ m @ r = (l @ p) @ CHR '','' # w @ CHR '','' # (q @ r) \<and> list_all isWhiteSpace w"
    by simp
  then show ?thesis unfolding hasCommaPair_iff by blast
qed

lemma collapseCommas_no_pair: "\<not> hasCommaPair s \<Longrightarrow> collapseCommas s = s"
proof (induction s)
  case Nil
  show ?case by simp
next
  case (Cons c cs)
  from Cons.prems have rest: "\<not> hasCommaPair cs"
    and here: "\<not> (c = CHR '','' \<and>
      (case dropWhile isWhiteSpace cs of [] \<Rightarrow> False | d # _ \<Rightarrow> d = CHR '',''))"
    by simp_all
  from Cons.IH [OF rest] have ih: "collapseCommas cs = cs" .
  show ?case
  proof (cases "dropWhile isWhiteSpace cs")
    case Nil
    show ?thesis by (simp add: ih Nil)
  next
    case (Cons d r)
    with here show ?thesis by (simp add: ih)
  qed
qed

lemma stripPlusCodes_no_code: "\<not> looksLikePlusCode s \<Longrightarrow> stripPlusCodes s = s"
  by (induction s) auto

lemma stripLeadingComma_suffix: "\<exists>l. s = l @ stripLeadingComma s"
proof (cases "dropWhile isWhiteSpace s")
  case Nil
  show ?thesis by (simp add: stripLeadingComma_def Nil)
next
  case (Cons c rest)
  show ?thesis
  proof (cases "c = CHR '',''")
    case False
    with Cons show ?thesis by (simp add: stripLeadingComma_def)
  next
    case True
    have "s = takeWhile isWhiteSpace s @ dropWhile isWhiteSpace s" by simp
    also have "\<dots> = takeWhile isWhiteSpace s @ c # rest" by (simp add: Cons)
    also have "rest = takeWhile isWhiteSpace rest @ dropWhile isWhiteSpace rest" by simp
    finally have "s = (takeWhile isWhiteSpace s @ c # takeWhile isWhiteSpace rest)
        @ dropWhile isWhiteSpace rest" by simp
    moreover from Cons True have "stripLeadingComma s = dropWhile isWhiteSpace rest"
      by (simp add: stripLeadingComma_def)
    ultimately show ?thesis by metis
  qed
qed

lemma stripTrailingComma_prefix: "\<exists>r. s = stripTrailingComma s @ r"
proof -
  from stripLeadingComma_suffix [of "rev s"] obtain l where "rev s = l @ stripLeadingComma (rev s)"
    by blast
  then have "s = rev (stripLeadingComma (rev s)) @ rev l"
    by (metis rev_append rev_rev_ident)
  then show ?thesis by (auto simp: stripTrailingComma_def)
qed

text \<open>After the leading comma is stripped, the first character that is not white space is no comma.\<close>

lemma stripLeadingComma_head:
  assumes "\<not> hasCommaPair s"
  shows "dropWhile isWhiteSpace (stripLeadingComma s) = [] \<or>
         hd (dropWhile isWhiteSpace (stripLeadingComma s)) \<noteq> CHR '',''"
proof (cases "dropWhile isWhiteSpace s")
  case Nil
  show ?thesis by (simp add: stripLeadingComma_def Nil)
next
  case (Cons c rest)
  show ?thesis
  proof (cases "c = CHR '',''")
    case False
    with Cons show ?thesis by (simp add: stripLeadingComma_def)
  next
    case True
    from Cons True have z: "stripLeadingComma s = dropWhile isWhiteSpace rest"
      by (simp add: stripLeadingComma_def)
    show ?thesis
    proof (rule ccontr)
      assume "\<not> ?thesis"
      then have "dropWhile isWhiteSpace rest \<noteq> [] \<and>
          hd (dropWhile isWhiteSpace rest) = CHR '',''"
        unfolding z by (simp only: dropWhile_idem) simp
      then have r: "dropWhile isWhiteSpace rest = CHR '','' # tl (dropWhile isWhiteSpace rest)"
        by (metis hd_Cons_tl)
      have "hasCommaPair (c # rest)"
        using True by (subst hasCommaPair.simps, subst r) simp
      then have "hasCommaPair (takeWhile isWhiteSpace s @ (c # rest) @ [])"
        by (rule hasCommaPair_append)
      then have "hasCommaPair (takeWhile isWhiteSpace s @ dropWhile isWhiteSpace s)"
        by (simp add: Cons)
      with assms show False by simp
    qed
  qed
qed

lemma dropWhile_append_keep:
  "dropWhile P xs \<noteq> [] \<Longrightarrow> dropWhile P (xs @ ys) = dropWhile P xs @ ys"
  by (induction xs) auto

lemma trim_decomp:
  "\<exists>l r. s = l @ trim s @ r"
proof -
  define t where "t = dropWhile isWhiteSpace s"
  have "rev t = takeWhile isWhiteSpace (rev t) @ dropWhile isWhiteSpace (rev t)"
    by simp
  then have "t = rev (dropWhile isWhiteSpace (rev t)) @ rev (takeWhile isWhiteSpace (rev t))"
    by (metis rev_append rev_rev_ident)
  then have "t = trim s @ rev (takeWhile isWhiteSpace (rev t))"
    by (simp add: trim_def t_def)
  moreover have "s = takeWhile isWhiteSpace s @ t"
    by (simp add: t_def)
  ultimately show ?thesis by metis
qed

lemma trim_head:
  "trim s = [] \<or> (dropWhile isWhiteSpace s \<noteq> [] \<and> hd (trim s) = hd (dropWhile isWhiteSpace s))"
proof -
  define t where "t = dropWhile isWhiteSpace s"
  have "rev t = takeWhile isWhiteSpace (rev t) @ dropWhile isWhiteSpace (rev t)"
    by simp
  then have "t = rev (dropWhile isWhiteSpace (rev t)) @ rev (takeWhile isWhiteSpace (rev t))"
    by (metis rev_append rev_rev_ident)
  then have "t = trim s @ rev (takeWhile isWhiteSpace (rev t))"
    by (simp add: trim_def t_def)
  then have "trim s = [] \<or> (t \<noteq> [] \<and> hd (trim s) = hd t)"
    by (metis append_is_Nil_conv hd_append2)
  then show ?thesis by (simp add: t_def)
qed

lemma trim_last:
  "trim s = [] \<or>
   (dropWhile isWhiteSpace (rev s) \<noteq> [] \<and> last (trim s) = hd (dropWhile isWhiteSpace (rev s)))"
proof (cases "trim s = []")
  case True
  then show ?thesis by simp
next
  case False
  define t where "t = dropWhile isWhiteSpace s"
  define u where "u = dropWhile isWhiteSpace (rev t)"
  have x: "trim s = rev u"
    by (simp add: trim_def t_def u_def)
  with False have un: "u \<noteq> []" by simp
  have "s = takeWhile isWhiteSpace s @ t"
    by (simp add: t_def)
  then have "rev s = rev t @ rev (takeWhile isWhiteSpace s)"
    by (metis rev_append)
  then have "dropWhile isWhiteSpace (rev s) = u @ rev (takeWhile isWhiteSpace s)"
    using un dropWhile_append_keep [of isWhiteSpace "rev t" "rev (takeWhile isWhiteSpace s)"]
    by (simp add: u_def)
  with un have "dropWhile isWhiteSpace (rev s) \<noteq> [] \<and> hd (dropWhile isWhiteSpace (rev s)) = hd u"
    by simp
  moreover from un have "last (trim s) = hd u"
    unfolding x by (simp add: last_rev)
  ultimately show ?thesis by simp
qed

lemma stripLeadingComma_id:
  "x = [] \<or> (\<not> isWhiteSpace (hd x) \<and> hd x \<noteq> CHR '','') \<Longrightarrow> stripLeadingComma x = x"
  by (cases x) (auto simp: stripLeadingComma_def)

lemma stripTrailingComma_id:
  "x = [] \<or> (\<not> isWhiteSpace (last x) \<and> last x \<noteq> CHR '','') \<Longrightarrow> stripTrailingComma x = x"
proof -
  assume a: "x = [] \<or> (\<not> isWhiteSpace (last x) \<and> last x \<noteq> CHR '','')"
  have "rev x = [] \<or> (\<not> isWhiteSpace (hd (rev x)) \<and> hd (rev x) \<noteq> CHR '','')"
  proof (cases "x = []")
    case True
    then show ?thesis by simp
  next
    case False
    with a show ?thesis by (simp add: hd_rev)
  qed
  then have "stripLeadingComma (rev x) = rev x"
    by (rule stripLeadingComma_id)
  then show ?thesis by (simp add: stripTrailingComma_def)
qed

lemma cleanup_boundaryClean:
  assumes np: "\<not> hasCommaPair s"
  shows "cleanup (boundaryClean s) = boundaryClean s"
proof -
  define z where "z = stripLeadingComma s"
  define y where "y = stripTrailingComma z"
  define x where "x = trim y"
  have bx: "boundaryClean s = x"
    by (simp add: boundaryClean_def x_def y_def z_def)
  obtain l where sl: "s = l @ z"
    using stripLeadingComma_suffix [of s] unfolding z_def by blast
  obtain r where zr: "z = y @ r"
    using stripTrailingComma_prefix [of z] unfolding y_def by blast
  obtain l' r' where yx: "y = l' @ x @ r'"
    using trim_decomp [of y] unfolding x_def by blast
  have npz: "\<not> hasCommaPair z"
    using np hasCommaPair_append [of z l "[]"] by (auto simp: sl)
  have npy: "\<not> hasCommaPair y"
    using npz hasCommaPair_append [of y "[]" r] by (auto simp: zr)
  have npx: "\<not> hasCommaPair x"
    using npy hasCommaPair_append [of x l' r'] by (auto simp: yx)
  have hz: "dropWhile isWhiteSpace z = [] \<or> hd (dropWhile isWhiteSpace z) \<noteq> CHR '',''"
    unfolding z_def using np by (rule stripLeadingComma_head)
  have "rev y = stripLeadingComma (rev z)"
    by (simp add: y_def stripTrailingComma_def)
  moreover have "\<not> hasCommaPair (rev z)"
    using npz by (simp add: hasCommaPair_rev)
  ultimately have hy: "dropWhile isWhiteSpace (rev y) = [] \<or>
      hd (dropWhile isWhiteSpace (rev y)) \<noteq> CHR '',''"
    using stripLeadingComma_head [of "rev z"] by simp
  have first: "x = [] \<or> (\<not> isWhiteSpace (hd x) \<and> hd x \<noteq> CHR '','')"
  proof (cases "x = []")
    case True
    then show ?thesis by simp
  next
    case False
    with trim_head [of y] have dy: "dropWhile isWhiteSpace y \<noteq> []"
      and hx: "hd x = hd (dropWhile isWhiteSpace y)"
      by (auto simp: x_def)
    from dy have "dropWhile isWhiteSpace z = dropWhile isWhiteSpace y @ r"
      unfolding zr by (rule dropWhile_append_keep)
    with dy hz have "hd (dropWhile isWhiteSpace y) \<noteq> CHR '',''"
      by auto
    moreover from dy have "\<not> isWhiteSpace (hd (dropWhile isWhiteSpace y))"
      by (rule hd_dropWhile)
    ultimately show ?thesis using hx by simp
  qed
  have final: "x = [] \<or> (\<not> isWhiteSpace (last x) \<and> last x \<noteq> CHR '','')"
  proof (cases "x = []")
    case True
    then show ?thesis by simp
  next
    case False
    with trim_last [of y] have dy: "dropWhile isWhiteSpace (rev y) \<noteq> []"
      and lx: "last x = hd (dropWhile isWhiteSpace (rev y))"
      by (auto simp: x_def)
    from dy hy have "hd (dropWhile isWhiteSpace (rev y)) \<noteq> CHR '',''"
      by auto
    moreover from dy have "\<not> isWhiteSpace (hd (dropWhile isWhiteSpace (rev y)))"
      by (rule hd_dropWhile)
    ultimately show ?thesis using lx by simp
  qed
  have "cleanup x = trim (stripTrailingComma (stripLeadingComma x))"
    using npx by (simp add: cleanup_def collapseCommas_no_pair)
  also have "\<dots> = trim x"
    using first final by (simp add: stripLeadingComma_id stripTrailingComma_id)
  also have "\<dots> = x"
    unfolding x_def by (rule trim_trim)
  finally show ?thesis unfolding bx .
qed

lemma cleanup_no_pair: "\<not> hasCommaPair s \<Longrightarrow> cleanup s = boundaryClean s"
  by (simp add: cleanup_def boundaryClean_def collapseCommas_no_pair)

lemma formatAddress_Some:
  "formatAddress (Some a) =
     orSentinel (cleanup
       (if length (addressParts a) < 3 \<and> truthy (formattedAddress a) \<and>
           length (join '', '' (addressParts a))
             < length (cleanup (stripPlusCodes (str (formattedAddress a))))
        then cleanup (stripPlusCodes (str (formattedAddress a)))
        else join '', '' (addressParts a)))"
  by (simp add: formatAddress_def Let_def)

lemma addressParts_noFields:
  "addressParts (noFields\<lparr>formattedAddress := fa\<rparr>) = []"
  by (simp add: addressParts_def noFields_def step1_name_def step2_street_def
      step3_subregion_def step4_district_def step5_city_def step6_region_def
      step7_country_def truthy_def)

lemma formatAddress_None: "formatAddress None = []"
  by (simp add: formatAddress_def)

subsection \<open>Properties of the address formatting\<close>

text \<open>
  What step 1 does: it pushes the name, as the first address part, exactly when the name
  is present and not empty, contains no plus sign at all, and differs from both the city
  and the subregion; otherwise it pushes nothing. So a name with a plus sign is never
  pushed, whether it holds a plus code or not.
\<close>

lemma step1_name_iff:
  "step1_name a =
     (if truthy (name a) \<and> CHR ''+'' \<notin> set (str (name a)) \<and>
         name a \<noteq> city a \<and> name a \<noteq> subregion a
      then [str (name a)] else []) \<and>
   take (length (step1_name a)) (addressParts a) = step1_name a \<and>
   (truthy (name a) \<and> CHR ''+'' \<notin> set (str (name a)) \<and>
      name a \<noteq> city a \<and> name a \<noteq> subregion a \<longrightarrow>
      addressParts a \<noteq> [] \<and> hd (addressParts a) = str (name a)) \<and>
   (CHR ''+'' \<in> set (str (name a)) \<longrightarrow> step1_name a = []) \<and>
   (looksLikePlusCode (str (name a)) \<longrightarrow> step1_name a = [])"
proof (intro conjI impI)
  show s: "step1_name a =
     (if truthy (name a) \<and> CHR ''+'' \<notin> set (str (name a)) \<and>
         name a \<noteq> city a \<and> name a \<noteq> subregion a
      then [str (name a)] else [])"
    by (simp add: step1_name_def str_includes_plus)
  show "take (length (step1_name a)) (addressParts a) = step1_name a"
    by (simp add: addressParts_def)
  show "addressParts a \<noteq> []" and "hd (addressParts a) = str (name a)"
    if "truthy (name a) \<and> CHR ''+'' \<notin> set (str (name a)) \<and>
      name a \<noteq> city a \<and> name a \<noteq> subregion a"
    using that s by (simp_all add: addressParts_def)
  show p: "step1_name a = []" if "CHR ''+'' \<in> set (str (name a))"
    using that s by simp
  show "step1_name a = []" if "looksLikePlusCode (str (name a))"
    using that s by (simp add: looksLikePlusCode_has_plus)
qed

lemma step1_name_iff_example:
  "step1_name (noFields\<lparr>name := Some ''Liberty Market'', city := Some ''Lahore''\<rparr>)
     = [''Liberty Market''] \<and>
   hd (addressParts (noFields\<lparr>name := Some ''Liberty Market'', city := Some ''Lahore''\<rparr>))
     = ''Liberty Market'' \<and>
   looksLikePlusCode ''Q9J7+M2P'' \<and>
   step1_name (noFields\<lparr>name := Some ''Q9J7+M2P'', city := Some ''Lahore''\<rparr>) = []"
proof -
  have c: "truthy (name (noFields\<lparr>name := Some ''Liberty Market'', city := Some ''Lahore''\<rparr>)) \<and>
      CHR ''+'' \<notin> set (str (name (noFields\<lparr>name := Some ''Liberty Market'',
        city := Some ''Lahore''\<rparr>))) \<and>
      name (noFields\<lparr>name := Some ''Liberty Market'', city := Some ''Lahore''\<rparr>)
        \<noteq> city (noFields\<lparr>name := Some ''Liberty Market'', city := Some ''Lahore''\<rparr>) \<and>
      name (noFields\<lparr>name := Some ''Liberty Market'', city := Some ''Lahore''\<rparr>)
        \<noteq> subregion (noFields\<lparr>name := Some ''Liberty Market'', city := Some ''Lahore''\<rparr>)"
    by (simp add: truthy_def str_def noFields_def)
  have q: "looksLikePlusCode ''Q9J7+M2P''"
    by code_simp
  have n: "str (name (noFields\<lparr>name := Some ''Q9J7+M2P'', city := Some ''Lahore''\<rparr>))
      = ''Q9J7+M2P''"
    by (simp add: str_def)
  from step1_name_iff [of "noFields\<lparr>name := Some ''Liberty Market'', city := Some ''Lahore''\<rparr>"] c
  have "step1_name (noFields\<lparr>name := Some ''Liberty Market'', city := Some ''Lahore''\<rparr>)
      = [''Liberty Market''] \<and>
    hd (addressParts (noFields\<lparr>name := Some ''Liberty Market'', city := Some ''Lahore''\<rparr>))
      = ''Liberty Market''"
    by (simp add: str_def)
  moreover from step1_name_iff [of "noFields\<lparr>name := Some ''Q9J7+M2P'', city := Some ''Lahore''\<rparr>"]
    q n
  have "step1_name (noFields\<lparr>name := Some ''Q9J7+M2P'', city := Some ''Lahore''\<rparr>) = []"
    by simp
  ultimately show ?thesis using q by simp
qed

text \<open>
  C3. Step 1 should push the name whenever it is present, is no plus code and differs from
  the city and the subregion, also when it holds a plus sign. It does not: the name
  C+ Cafe holds a plus sign, matches the plus code pattern nowhere and differs from the
  city Lahore, and step 1 pushes nothing, so the address is Lahore alone.
\<close>

theorem step1_name_drops_plus_name:
  "\<not> looksLikePlusCode ''C+ Cafe'' \<and>
   step1_name (noFields\<lparr>name := Some ''C+ Cafe'', city := Some ''Lahore''\<rparr>) = [] \<and>
   addressParts (noFields\<lparr>name := Some ''C+ Cafe'', city := Some ''Lahore''\<rparr>) = [''Lahore''] \<and>
   formatAddress (Some (noFields\<lparr>name := Some ''C+ Cafe'', city := Some ''Lahore''\<rparr>))
     = ''Lahore''"
proof (intro conjI)
  show "\<not> looksLikePlusCode ''C+ Cafe''"
    by simp
  show "step1_name (noFields\<lparr>name := Some ''C+ Cafe'', city := Some ''Lahore''\<rparr>) = []"
    by (simp add: noFields_def step1_name_def truthy_def str_def)
  show "addressParts (noFields\<lparr>name := Some ''C+ Cafe'', city := Some ''Lahore''\<rparr>)
      = [''Lahore'']"
    by (simp add: noFields_def addressParts_def step1_name_def step2_street_def
        step3_subregion_def step4_district_def step5_city_def step6_region_def
        step7_country_def truthy_def str_def)
  show "formatAddress (Some (noFields\<lparr>name := Some ''C+ Cafe'', city := Some ''Lahore''\<rparr>))
      = ''Lahore''"
    by code_simp
qed

text \<open>
  C5. For every geocoding object, \<open>formatAddress\<close> does not return the empty string; when
  no step pushes a part and no truthy \<open>formattedAddress\<close> is there, and more generally
  when the joined parts clean up to the empty string and so does the cleaned
  \<open>formattedAddress\<close> if there is one, it returns exactly \<open>''Location detected''\<close>; so it
  does for the empty object.
\<close>

theorem formatAddress_never_empty:
  "formatAddress (Some a) \<noteq> [] \<and>
   (addressParts a = [] \<and> \<not> truthy (formattedAddress a) \<longrightarrow>
      formatAddress (Some a) = ''Location detected'') \<and>
   (cleanup (join '', '' (addressParts a)) = [] \<and>
      (truthy (formattedAddress a) \<longrightarrow>
         cleanup (cleanup (stripPlusCodes (str (formattedAddress a)))) = []) \<longrightarrow>
      formatAddress (Some a) = ''Location detected'') \<and>
   formatAddress (Some noFields) = ''Location detected''"
proof (intro conjI impI)
  show "formatAddress (Some a) \<noteq> []"
    by (simp add: formatAddress_Some orSentinel_def)
  show "formatAddress (Some a) = ''Location detected''"
    if "addressParts a = [] \<and> \<not> truthy (formattedAddress a)"
    using that by (simp add: formatAddress_Some orSentinel_def cleanup_Nil)
  show "formatAddress (Some a) = ''Location detected''"
    if "cleanup (join '', '' (addressParts a)) = [] \<and>
      (truthy (formattedAddress a) \<longrightarrow>
         cleanup (cleanup (stripPlusCodes (str (formattedAddress a)))) = [])"
    using that by (simp add: formatAddress_Some orSentinel_def)
  show "formatAddress (Some noFields) = ''Location detected''"
    using addressParts_noFields [of None]
    by (simp add: formatAddress_Some orSentinel_def cleanup_Nil noFields_def truthy_def)
qed

theorem formatAddress_never_empty_witness:
  "addressParts (noFields\<lparr>formattedAddress := Some ''Q9J7+M2P''\<rparr>) = [] \<and>
   truthy (formattedAddress (noFields\<lparr>formattedAddress := Some ''Q9J7+M2P''\<rparr>)) \<and>
   cleanup (stripPlusCodes ''Q9J7+M2P'') = [] \<and>
   formatAddress (Some (noFields\<lparr>formattedAddress := Some ''Q9J7+M2P''\<rparr>)) = ''Location detected''"
proof -
  have p: "addressParts (noFields\<lparr>formattedAddress := Some ''Q9J7+M2P''\<rparr>) = []"
    by (rule addressParts_noFields)
  have c: "cleanup (stripPlusCodes ''Q9J7+M2P'') = []"
    by code_simp
  have t: "truthy (formattedAddress (noFields\<lparr>formattedAddress := Some ''Q9J7+M2P''\<rparr>))"
    by (simp add: truthy_def)
  from formatAddress_never_empty [of "noFields\<lparr>formattedAddress := Some ''Q9J7+M2P''\<rparr>"] p c t
  show ?thesis by (simp add: cleanup_Nil str_def)
qed

text \<open>
  C8 (as amended). When steps 1 to 7 pushed fewer than 3 parts and a non-empty
  \<open>formattedAddress\<close> is there, \<open>formatAddress\<close> removes the plus codes from it and
  cleans its commas, takes that cleaned string instead of the joined parts exactly when
  it is strictly longer, and returns the string taken after the final cleanup, or the
  sentinel when that is empty. In particular, when every other field is missing, the
  result is the cleaned \<open>formattedAddress\<close> after the final cleanup, or the sentinel; and
  when moreover \<open>formattedAddress\<close> holds no plus code and no two commas with only white
  space between them, the result is \<open>formattedAddress\<close> with its boundary commas and the
  white space at its ends removed, or the sentinel when nothing is left.
\<close>

theorem formatAddress_fallback:
  assumes "length (addressParts a) < 3" and "formattedAddress a = Some fa" and "fa \<noteq> []"
  shows "formatAddress (Some a) =
       orSentinel (cleanup
         (if length (join '', '' (addressParts a)) < length (cleanup (stripPlusCodes fa))
          then cleanup (stripPlusCodes fa) else join '', '' (addressParts a))) \<and>
     (a = noFields\<lparr>formattedAddress := Some fa\<rparr> \<longrightarrow>
        formatAddress (Some a) = orSentinel (cleanup (cleanup (stripPlusCodes fa)))) \<and>
     (a = noFields\<lparr>formattedAddress := Some fa\<rparr> \<and> \<not> looksLikePlusCode fa \<and>
        \<not> hasCommaPair fa \<longrightarrow>
        formatAddress (Some a) = orSentinel (boundaryClean fa) \<and>
        boundaryClean fa = trim (stripTrailingComma (stripLeadingComma fa)))"
proof (intro conjI impI)
  show g: "formatAddress (Some a) =
       orSentinel (cleanup
         (if length (join '', '' (addressParts a)) < length (cleanup (stripPlusCodes fa))
          then cleanup (stripPlusCodes fa) else join '', '' (addressParts a)))"
    using assms by (simp add: formatAddress_Some truthy_def str_def)
  show n: "formatAddress (Some a) = orSentinel (cleanup (cleanup (stripPlusCodes fa)))"
    if "a = noFields\<lparr>formattedAddress := Some fa\<rparr>"
  proof -
    from that have "addressParts a = []"
      by (simp add: addressParts_noFields)
    then show ?thesis
      unfolding g by (cases "cleanup (stripPlusCodes fa) = []") (simp_all add: cleanup_Nil)
  qed
  show "formatAddress (Some a) = orSentinel (boundaryClean fa)"
    if h: "a = noFields\<lparr>formattedAddress := Some fa\<rparr> \<and> \<not> looksLikePlusCode fa \<and>
        \<not> hasCommaPair fa"
  proof -
    from h have "cleanup (stripPlusCodes fa) = boundaryClean fa"
      by (simp add: stripPlusCodes_no_code cleanup_no_pair)
    moreover from h have "cleanup (boundaryClean fa) = boundaryClean fa"
      by (simp add: cleanup_boundaryClean)
    ultimately show ?thesis using n h by simp
  qed
  show "boundaryClean fa = trim (stripTrailingComma (stripLeadingComma fa))"
    by (simp add: boundaryClean_def)
qed

theorem formatAddress_fallback_witness:
  "\<not> looksLikePlusCode '', Mall Road, Lahore ,'' \<and>
   \<not> hasCommaPair '', Mall Road, Lahore ,'' \<and>
   formatAddress (Some (noFields\<lparr>formattedAddress := Some '', Mall Road, Lahore ,''\<rparr>))
     = ''Mall Road, Lahore''"
proof -
  have l: "length (addressParts (noFields\<lparr>formattedAddress := Some '', Mall Road, Lahore ,''\<rparr>)) < 3"
    by (simp add: addressParts_noFields)
  have f: "formattedAddress (noFields\<lparr>formattedAddress := Some '', Mall Road, Lahore ,''\<rparr>)
      = Some '', Mall Road, Lahore ,''"
    by simp
  have ne: "'', Mall Road, Lahore ,'' \<noteq> []"
    by simp
  have np: "\<not> looksLikePlusCode '', Mall Road, Lahore ,''"
    by code_simp
  have nc: "\<not> hasCommaPair '', Mall Road, Lahore ,''"
    by code_simp
  have b: "boundaryClean '', Mall Road, Lahore ,'' = ''Mall Road, Lahore''"
    by code_simp
  have "formatAddress (Some (noFields\<lparr>formattedAddress := Some '', Mall Road, Lahore ,''\<rparr>))
      = orSentinel (boundaryClean '', Mall Road, Lahore ,'')"
    using formatAddress_fallback [OF l f ne, THEN conjunct2, THEN conjunct2] np nc by simp
  with b np nc show ?thesis
    by (simp add: orSentinel_def)
qed

text \<open>
  C8 as stated fails: with every other field missing, the cleaned string of
  \<open>''Mall Road,,, Lahore''\<close> still holds two commas in a row and is strictly longer than the
  (empty) joined parts, but the result is not that cleaned string: the final cleanup
  changes it again. And for a \<open>formattedAddress\<close> that is a single comma the result is the
  sentinel.
\<close>

theorem formatAddress_fallback_counterexample:
  "length (addressParts (noFields\<lparr>formattedAddress := Some ''Mall Road,,, Lahore''\<rparr>)) < 3 \<and>
   cleanup (stripPlusCodes ''Mall Road,,, Lahore'') = ''Mall Road,, Lahore'' \<and>
   length (join '', '' (addressParts (noFields\<lparr>formattedAddress := Some ''Mall Road,,, Lahore''\<rparr>)))
     < length ''Mall Road,, Lahore'' \<and>
   formatAddress (Some (noFields\<lparr>formattedAddress := Some ''Mall Road,,, Lahore''\<rparr>))
     = ''Mall Road, Lahore'' \<and>
   formatAddress (Some (noFields\<lparr>formattedAddress := Some '',''\<rparr>)) = ''Location detected''"
proof (intro conjI)
  show "length (addressParts (noFields\<lparr>formattedAddress := Some ''Mall Road,,, Lahore''\<rparr>)) < 3"
    by (simp add: addressParts_noFields)
  show "cleanup (stripPlusCodes ''Mall Road,,, Lahore'') = ''Mall Road,, Lahore''"
    by code_simp
  show "length (join '', '' (addressParts (noFields\<lparr>formattedAddress := Some ''Mall Road,,, Lahore''\<rparr>)))
     < length ''Mall Road,, Lahore''"
    by (simp add: addressParts_noFields)
  show "formatAddress (Some (noFields\<lparr>formattedAddress := Some ''Mall Road,,, Lahore''\<rparr>))
     = ''Mall Road, Lahore''"
    by code_simp
  show "formatAddress (Some (noFields\<lparr>formattedAddress := Some '',''\<rparr>)) = ''Location detected''"
    by code_simp
qed

text \<open>
  C9. For city Lahore, subregion Lahore, region Punjab and country Pakistan the result
  is exactly \<open>''Lahore, Punjab, Pakistan''\<close>: the parts are the city, the region and the
  country, the subregion being skipped.
\<close>

theorem formatAddress_lahore:
  "formatAddress (Some \<lparr>name = None, streetNumber = None, street = None,
      subregion = Some ''Lahore'', city = Some ''Lahore'', region = Some ''Punjab'',
      country = Some ''Pakistan'', formattedAddress = None, district = None\<rparr>)
     = ''Lahore, Punjab, Pakistan'' \<and>
   addressParts \<lparr>name = None, streetNumber = None, street = None,
      subregion = Some ''Lahore'', city = Some ''Lahore'', region = Some ''Punjab'',
      country = Some ''Pakistan'', formattedAddress = None, district = None\<rparr>
     = [''Lahore'', ''Punjab'', ''Pakistan'']"
proof
  show "formatAddress (Some \<lparr>name = None, streetNumber = None, street = None,
      subregion = Some ''Lahore'', city = Some ''Lahore'', region = Some ''Punjab'',
      country = Some ''Pakistan'', formattedAddress = None, district = None\<rparr>)
     = ''Lahore, Punjab, Pakistan''"
    by code_simp
  show "addressParts \<lparr>name = None, streetNumber = None, street = None,
      subregion = Some ''Lahore'', city = Some ''Lahore'', region = Some ''Punjab'',
      country = Some ''Pakistan'', formattedAddress = None, district = None\<rparr>
     = [''Lahore'', ''Punjab'', ''Pakistan'']"
    by (simp add: addressParts_def step1_name_def step2_street_def
      step3_subregion_def step4_district_def step5_city_def step6_region_def
      step7_country_def truthy_def str_def)
qed

section \<open>The form validation: facts and properties\<close>

text \<open>
  The location check passes exactly for two finite numbers, both different from 0,
  within the ranges.
\<close>

lemma locationInvalid_iff:
  "\<not> locationInvalid lat lng \<longleftrightarrow>
     (\<exists>x y. lat = JSNumber x \<and> lng = JSNumber y \<and> x \<noteq> 0 \<and> y \<noteq> 0 \<and>
        - 90 \<le> x \<and> x \<le> 90 \<and> - 180 \<le> y \<and> y \<le> 180)"
  by (cases lat; cases lng) (auto simp: locationInvalid_def)

text \<open>
  C4. The validation should accept every draft whose latitude and longitude are present
  and in range, latitude 0 included. It does not: a draft whose other fields are all
  valid, with latitude 0 and longitude 74.3, is rejected by the add screen and by the edit
  screen, while the same draft with latitude 31.5 is accepted.
\<close>

theorem validateForm_rejects_zero:
  "validateForm \<lparr>form_name = ''Karahi House'', form_cuisine = ''Pakistani'',
      form_type = ''Casual Dining'', form_description = ''Family restaurant'',
      form_phone = ''042111222'', form_email = ''info@karahi.pk'',
      form_address = ''Mall Road, Lahore'', latitude = JSNumber 0, longitude = JSNumber 74.3\<rparr>
     = False \<and>
   validateFormEdit \<lparr>form_name = ''Karahi House'', form_cuisine = ''Pakistani'',
      form_type = ''Casual Dining'', form_description = ''Family restaurant'',
      form_phone = ''042111222'', form_email = ''info@karahi.pk'',
      form_address = ''Mall Road, Lahore'', latitude = JSNumber 0, longitude = JSNumber 74.3\<rparr>
     = False \<and>
   validateForm \<lparr>form_name = ''Karahi House'', form_cuisine = ''Pakistani'',
      form_type = ''Casual Dining'', form_description = ''Family restaurant'',
      form_phone = ''042111222'', form_email = ''info@karahi.pk'',
      form_address = ''Mall Road, Lahore'', latitude = JSNumber 31.5, longitude = JSNumber 74.3\<rparr>
     = True"
  by (simp add: validateForm_def validateFormEdit_def locationInvalid_def trim_def isWhiteSpace_def)


end
